theory Spec2Isabelle
  imports Complex_Main "HOL-Library.AList" "HOL-Library.Sublist"
begin

section \<open>tap-exchangeratesapi: a shallow embedding of \<^verbatim>\<open>tap_exchangeratesapi/__init__.py\<close>\<close>

text \<open>
  The tap walks the calendar from a start date to the current UTC date, fetches the
  exchange rates of every configured exchange for each date, grows a JSON schema as new
  currency codes appear, writes SCHEMA, RECORD and STATE messages downstream and
  checkpoints the last date it completed.

  The embedding follows the source function by function. The outside world (the HTTP
  provider, the random jitter, the clock, the date parser of the start date) is a record
  of oracles indexed by how often each has been asked, so that every run of the program
  is a run of the model for some world. Exceptions are values; the while loop over dates
  may in principle run for ever, so it is a partial function into \<open>option\<close>.
\<close>

subsection \<open>Calendar dates and the two library formats\<close>

text \<open>
  \<^verbatim>\<open>DATE_FORMAT = '%Y-%m-%d'\<close>. A \<^verbatim>\<open>datetime\<close> at midnight is a \<open>date\<close>; Python's
  \<^verbatim>\<open>datetime\<close> supports the years 1 to 9999 of the proleptic Gregorian calendar.
\<close>

record date =
  year :: nat
  month :: nat
  day :: nat

definition is_leap :: "nat \<Rightarrow> bool" where
  "is_leap y \<longleftrightarrow> y mod 4 = 0 \<and> (y mod 100 \<noteq> 0 \<or> y mod 400 = 0)"

definition days_in_month :: "nat \<Rightarrow> nat \<Rightarrow> nat" where
  "days_in_month y m =
     (if m = 2 then (if is_leap y then 29 else 28)
      else if m = 4 \<or> m = 6 \<or> m = 9 \<or> m = 11 then 30 else 31)"

definition valid_date :: "date \<Rightarrow> bool" where
  "valid_date d \<longleftrightarrow>
     1 \<le> year d \<and> year d \<le> 9999 \<and> 1 \<le> month d \<and> month d \<le> 12 \<and>
     1 \<le> day d \<and> day d \<le> days_in_month (year d) (month d)"

text \<open>Comparison of dates, as Python compares them: field by field.\<close>

definition date_less :: "date \<Rightarrow> date \<Rightarrow> bool" where
  "date_less a b \<longleftrightarrow>
     year a < year b \<or>
     (year a = year b \<and> (month a < month b \<or> (month a = month b \<and> day a < day b)))"

definition date_le :: "date \<Rightarrow> date \<Rightarrow> bool" where
  "date_le a b \<longleftrightarrow> date_less a b \<or> (year a = year b \<and> month a = month b \<and> day a = day b)"

text \<open>
  \<^verbatim>\<open>d + timedelta(days=1)\<close>: the next calendar day; \<^verbatim>\<open>OverflowError\<close> (here \<open>None\<close>)
  past 9999-12-31.
\<close>

definition add_day :: "date \<Rightarrow> date option" where
  "add_day d =
     (if day d < days_in_month (year d) (month d) then Some (d\<lparr>day := day d + 1\<rparr>)
      else if month d < 12 then Some (d\<lparr>month := month d + 1, day := 1\<rparr>)
      else if year d < 9999 then Some \<lparr>year = year d + 1, month = 1, day = 1\<rparr>
      else None)"

text \<open>
  A \<^verbatim>\<open>datetime\<close>: a date and the microseconds since midnight. \<^verbatim>\<open>datetime.strptime\<close>
  with \<^verbatim>\<open>DATE_FORMAT\<close> yields midnight.
\<close>

record datetime =
  dt_date :: date
  dt_micros :: nat

definition midnight :: "date \<Rightarrow> datetime" where
  "midnight d = \<lparr>dt_date = d, dt_micros = 0\<rparr>"

definition datetime_le :: "datetime \<Rightarrow> datetime \<Rightarrow> bool" where
  "datetime_le a b \<longleftrightarrow>
     date_less (dt_date a) (dt_date b) \<or>
     (year (dt_date a) = year (dt_date b) \<and> month (dt_date a) = month (dt_date b) \<and>
      day (dt_date a) = day (dt_date b) \<and> dt_micros a \<le> dt_micros b)"

text \<open>
  Decimal digits. Strings are byte strings here; the non-ASCII digits that Python's
  \<^verbatim>\<open>\d\<close> also accepts are outside the model.
\<close>

definition is_digit :: "char \<Rightarrow> bool" where
  "is_digit c \<longleftrightarrow> 48 \<le> (of_char c :: nat) \<and> (of_char c :: nat) \<le> 57"

definition digit_val :: "char \<Rightarrow> nat" where
  "digit_val c = of_char c - 48"

definition digit_char :: "nat \<Rightarrow> char" where
  "digit_char n = char_of (48 + n mod 10)"

definition pad2 :: "nat \<Rightarrow> string" where
  "pad2 n = [digit_char (n div 10), digit_char n]"

definition pad4 :: "nat \<Rightarrow> string" where
  "pad4 n = [digit_char (n div 1000), digit_char (n div 100), digit_char (n div 10), digit_char n]"

text \<open>
  \<^verbatim>\<open>strftime(DATE_FORMAT)\<close>: zero-padded \<^verbatim>\<open>YYYY-MM-DD\<close>, as the Python documentation
  gives it.
\<close>

definition strftime :: "date \<Rightarrow> string" where
  "strftime d = pad4 (year d) @ ''-'' @ pad2 (month d) @ ''-'' @ pad2 (day d)"

text \<open>
  \<^verbatim>\<open>strftime('%Y-%m-%dT%H:%M:%SZ', t)\<close> for a \<^verbatim>\<open>struct_time\<close> \<open>t\<close> that \<^verbatim>\<open>strptime\<close>
  built from \<^verbatim>\<open>DATE_FORMAT\<close>: hour, minute and second are zero.
\<close>

definition strftime_iso :: "date \<Rightarrow> string" where
  "strftime_iso d = strftime d @ ''T00:00:00Z''"

text \<open>
  \<^verbatim>\<open>strptime(s, DATE_FORMAT)\<close>, for \<^verbatim>\<open>time\<close> and \<^verbatim>\<open>datetime\<close> alike. The library matches
  the whole string against
  \<^verbatim>\<open>(\d\d\d\d)-(1[0-2]|0[1-9]|[1-9])-(3[0-1]|[1-2]\d|0[1-9]|[1-9]| [1-9])\<close>
  and then builds a date, which rejects year 0 and a day the month does not have.
  \<open>None\<close> is \<^verbatim>\<open>ValueError\<close>.
\<close>

fun month_field :: "string \<Rightarrow> nat option" where
  "month_field [a] = (if is_digit a \<and> a \<noteq> CHR ''0'' then Some (digit_val a) else None)"
| "month_field [a, b] =
     (if a = CHR ''1'' \<and> is_digit b \<and> digit_val b \<le> 2 then Some (10 + digit_val b)
      else if a = CHR ''0'' \<and> is_digit b \<and> b \<noteq> CHR ''0'' then Some (digit_val b)
      else None)"
| "month_field _ = None"

fun day_field :: "string \<Rightarrow> nat option" where
  "day_field [a] = (if is_digit a \<and> a \<noteq> CHR ''0'' then Some (digit_val a) else None)"
| "day_field [a, b] =
     (if a = CHR ''3'' \<and> is_digit b \<and> digit_val b \<le> 1 then Some (30 + digit_val b)
      else if (a = CHR ''1'' \<or> a = CHR ''2'') \<and> is_digit b then Some (10 * digit_val a + digit_val b)
      else if (a = CHR ''0'' \<or> a = CHR '' '') \<and> is_digit b \<and> b \<noteq> CHR ''0'' then Some (digit_val b)
      else None)"
| "day_field _ = None"

definition strptime :: "string \<Rightarrow> date option" where
  "strptime s =
     (case s of
        y1 # y2 # y3 # y4 # dash # rest \<Rightarrow>
          if is_digit y1 \<and> is_digit y2 \<and> is_digit y3 \<and> is_digit y4 \<and> dash = CHR ''-'' then
            (case dropWhile (\<lambda>c. c \<noteq> CHR ''-'') rest of
               [] \<Rightarrow> None
             | _ # ds \<Rightarrow>
                 (case (month_field (takeWhile (\<lambda>c. c \<noteq> CHR ''-'') rest), day_field ds) of
                    (Some m, Some dd) \<Rightarrow>
                      (let d = \<lparr>year = 1000 * digit_val y1 + 100 * digit_val y2 +
                                       10 * digit_val y3 + digit_val y4,
                                month = m, day = dd\<rparr>
                       in if valid_date d then Some d else None)
                  | _ \<Rightarrow> None))
          else None
      | _ \<Rightarrow> None)"

subsection \<open>Dictionaries, JSON values and the store\<close>

text \<open>
  A Python \<^verbatim>\<open>dict\<close> is an association list with distinct keys in insertion order:
  \<^verbatim>\<open>k in d\<close> is \<open>map_of d k \<noteq> None\<close> and \<^verbatim>\<open>d[k] = v\<close> is \<open>AList.update k v d\<close>
  (replace in place, or append). \<^verbatim>\<open>==\<close> on dicts ignores the order.
\<close>

type_synonym 'v dict = "(string \<times> 'v) list"

definition dict_eq :: "'v dict \<Rightarrow> 'v dict \<Rightarrow> bool" where
  "dict_eq a b \<longleftrightarrow>
     list_all (\<lambda>(k, v). map_of b k = Some v) a \<and> list_all (\<lambda>(k, v). map_of a k = Some v) b"

text \<open>The values of a flattened record: the rates (floats) and the timestamp string.\<close>

datatype json = JNum real | JStr string

text \<open>
  The Rate Payload \<^verbatim>\<open>{'base': .., 'date': .., 'rates': {..}}\<close>. As decoded JSON, \<open>rates\<close> is
  a dictionary; as the Python object that \<^verbatim>\<open>parse_response\<close> receives, \<open>rates\<close> is a
  reference into the store.
\<close>

record 'r payload =
  base :: string
  date :: string
  rates :: 'r

type_synonym addr = nat
type_synonym heap = "addr \<Rightarrow> json dict"

text \<open>Exceptions. \<^verbatim>\<open>HTTPError\<close> and \<^verbatim>\<open>ConnectionError\<close> are \<^verbatim>\<open>RequestException\<close>s.\<close>

record response =
  status_code :: nat
  body_text :: string
  json_body :: "json dict payload"

datatype exn = HTTPError response | ConnectionError | AttributeError | ValueError | OverflowError

text \<open>
  \<^verbatim>\<open>error.response\<close>: the response an \<^verbatim>\<open>HTTPError\<close> carries; \<^verbatim>\<open>None\<close> for a
  \<^verbatim>\<open>RequestException\<close> raised before any response arrived.
\<close>

fun exn_response :: "exn \<Rightarrow> response option" where
  "exn_response (HTTPError resp) = Some resp"
| "exn_response _ = None"

fun is_RequestException :: "exn \<Rightarrow> bool" where
  "is_RequestException (HTTPError resp) = True"
| "is_RequestException ConnectionError = True"
| "is_RequestException _ = False"

subsection \<open>\<^verbatim>\<open>parse_response\<close>\<close>

text \<open>
  \<^verbatim>\<open>
  def parse_response(r):
      flattened = r['rates']
      flattened[r['base']] = 1.0
      flattened['date'] = time.strftime('%Y-%m-%dT%H:%M:%SZ', time.strptime(r['date'], DATE_FORMAT))
      return flattened
  \<close>
  \<open>flattened\<close> is the reference held by \<open>r\<close>; both assignments write through it. The
  first has happened when \<^verbatim>\<open>strptime\<close> raises.
\<close>

definition parse_response :: "heap \<Rightarrow> addr payload \<Rightarrow> heap \<times> (exn + addr)" where
  "parse_response h r =
     (let flattened = rates r;
          h1 = h(flattened := AList.update (base r) (JNum 1.0) (h flattened))
      in case strptime (date r) of
           None \<Rightarrow> (h1, Inl ValueError)
         | Some t \<Rightarrow>
             (h1(flattened := AList.update ''date'' (JStr (strftime_iso t)) (h1 flattened)),
              Inr flattened))"

subsection \<open>The schema\<close>

text \<open>
  The module-level \<^verbatim>\<open>schema\<close> is \<^verbatim>\<open>{'type': 'object', 'properties': {...}}\<close>; only its
  \<^verbatim>\<open>properties\<close> ever change, so the schema is its properties. A property is one of the
  two sub-schemas the program writes.
\<close>

datatype property =
    DateTimeString    \<comment> \<open>\<^verbatim>\<open>{'type': 'string', 'format': 'date-time'}\<close>\<close>
  | NullableNumber    \<comment> \<open>\<^verbatim>\<open>{'type': ['null', 'number']}\<close>\<close>

definition initial_schema :: "property dict" where
  "initial_schema = [(''date'', DateTimeString)]"

text \<open>
  \<^verbatim>\<open>
  for rate in payload['rates']:
      if rate not in schema['properties']:
          schema['properties'][rate] = {'type': ['null', 'number']}
  \<close>
\<close>

definition observe :: "string \<Rightarrow> property dict \<Rightarrow> property dict" where
  "observe rate props =
     (if map_of props rate = None then AList.update rate NullableNumber props else props)"

definition update_schema :: "string list \<Rightarrow> property dict \<Rightarrow> property dict" where
  "update_schema codes props = fold observe codes props"

text \<open>
  \<^verbatim>\<open>schema != prev_schema\<close>. \<open>prev_schema\<close> starts as the empty dict \<^verbatim>\<open>{}\<close> (here \<open>None\<close>),
  which no schema equals, and is a deep copy of the schema afterwards.
\<close>

definition schema_ne :: "property dict \<Rightarrow> property dict option \<Rightarrow> bool" where
  "schema_ne sch prev = (case prev of None \<Rightarrow> True | Some p \<Rightarrow> \<not> dict_eq sch p)"

subsection \<open>Configuration, the world and the effects of a run\<close>

record exchange =
  ex_base :: string
  ex_symbols :: "string list"

record config =
  apikey :: string
  exchanges :: "exchange list"
  start_date :: string
  schemaless :: bool

record request =
  url_date :: string
  param_base :: string
  param_symbols :: "string list"
  header_apikey :: string

text \<open>
  What \<^verbatim>\<open>requests.get\<close> does: it raises a \<^verbatim>\<open>RequestException\<close> without a response
  (connection refused, timeout), or returns a response with some status code.
\<close>

datatype attempt = Transport_Failure | Reply response

text \<open>
  The world: the \<open>k\<close>-th HTTP GET of the run, the \<open>k\<close>-th draw of \<^verbatim>\<open>random.random()\<close>,
  the \<open>k\<close>-th reading of \<^verbatim>\<open>datetime.utcnow()\<close>, and the date that
  \<^verbatim>\<open>singer.utils.strptime_with_tz(s).date()\<close> parses from a string (\<open>None\<close> when it
  raises).
\<close>

record world =
  http_get :: "nat \<Rightarrow> request \<Rightarrow> attempt"
  random_random :: "nat \<Rightarrow> real"
  utcnow :: "nat \<Rightarrow> datetime"
  strptime_with_tz :: "string \<Rightarrow> date option"

datatype record_body = Raw "json dict payload" | Flat "json dict"

datatype message =
    SCHEMA "property dict"
  | RECORD record_body
  | STATE string    \<comment> \<open>\<^verbatim>\<open>{'start_date': s}\<close>\<close>

text \<open>
  The state a run threads: the messages written downstream, the waits slept, the number of
  GETs issued and of clock readings taken, the global schema, and a history variable
  \<open>walked\<close> that records the date of every iteration of the while loop as it begins.
\<close>

record run =
  written :: "message list"
  slept :: "real list"
  calls :: nat
  ticks :: nat
  schema :: "property dict"
  walked :: "string list"

definition initial_run :: run where
  "initial_run =
     \<lparr>written = [], slept = [], calls = 0, ticks = 0, schema = initial_schema, walked = []\<rparr>"

subsection \<open>\<^verbatim>\<open>giveup\<close> and the retried \<^verbatim>\<open>request\<close>\<close>

text \<open>
  \<^verbatim>\<open>
  def giveup(error):
      logger.error(error.response.text)
      response = error.response
      return not (response.status_code == 429 or response.status_code >= 500)
  \<close>
  With \<^verbatim>\<open>error.response\<close> being \<^verbatim>\<open>None\<close>, the first line raises \<^verbatim>\<open>AttributeError\<close>.
\<close>

definition giveup :: "exn \<Rightarrow> exn + bool" where
  "giveup error =
     (case exn_response error of
        None \<Rightarrow> Inl AttributeError
      | Some response \<Rightarrow> Inr (\<not> (status_code response = 429 \<or> status_code response \<ge> 500)))"

text \<open>
  The body of \<^verbatim>\<open>request\<close>: one GET, then \<^verbatim>\<open>raise_for_status\<close>, which raises
  \<^verbatim>\<open>HTTPError\<close> for the statuses 400 to 599.
\<close>

definition get_once :: "world \<Rightarrow> nat \<Rightarrow> request \<Rightarrow> exn + response" where
  "get_once w k rq =
     (case http_get w k rq of
        Transport_Failure \<Rightarrow> Inl ConnectionError
      | Reply resp \<Rightarrow>
          if 400 \<le> status_code resp \<and> status_code resp < 600 then Inl (HTTPError resp)
          else Inr resp)"

definition max_tries :: nat where
  "max_tries = 5"

definition interval :: real where
  "interval = 30"

text \<open>
  \<^verbatim>\<open>@backoff.on_exception(backoff.constant, RequestException, jitter=backoff.random_jitter,
  max_tries=5, giveup=giveup, interval=30)\<close>: the decorator calls the body; on a
  \<^verbatim>\<open>RequestException\<close> it evaluates \<open>giveup\<close> first (an exception raised there
  escapes), re-raises when \<open>giveup\<close> holds or the attempt was the \<open>max_tries\<close>-th, and
  otherwise sleeps \<open>interval + random.random()\<close> and tries again. \<open>left\<close> is the number
  of attempts still allowed, this one included.
\<close>

fun on_exception :: "world \<Rightarrow> nat \<Rightarrow> request \<Rightarrow> run \<Rightarrow> run \<times> (exn + response)" where
  "on_exception w left rq r =
     (case get_once w (calls r) rq of
        Inr ret \<Rightarrow> (r\<lparr>calls := calls r + 1\<rparr>, Inr ret)
      | Inl e \<Rightarrow>
          (case giveup e of
             Inl crash \<Rightarrow> (r\<lparr>calls := calls r + 1\<rparr>, Inl crash)
           | Inr g \<Rightarrow>
               if g \<or> left \<le> 1 then (r\<lparr>calls := calls r + 1\<rparr>, Inl e)
               else on_exception w (left - 1) rq
                      (r\<lparr>calls := calls r + 1,
                         slept := slept r @ [interval + random_random w (calls r)]\<rparr>)))"

definition request :: "world \<Rightarrow> request \<Rightarrow> run \<Rightarrow> run \<times> (exn + response)" where
  "request w rq r = on_exception w max_tries rq r"

declare on_exception.simps [simp del]

subsection \<open>\<^verbatim>\<open>do_sync\<close>\<close>

text \<open>
  The body of \<^verbatim>\<open>for exchange in exchanges\<close> (lines 79 to 105). \<^verbatim>\<open>response.json()\<close>
  builds a fresh payload object, which nothing else refers to: its \<open>rates\<close> live in a
  one-cell store for the call of \<^verbatim>\<open>parse_response\<close>. The result is the run and the
  exception raised, if any.
\<close>

definition sync_exchange ::
  "world \<Rightarrow> config \<Rightarrow> string \<Rightarrow> property dict option \<Rightarrow> exchange \<Rightarrow> run \<Rightarrow> run \<times> exn option" where
  "sync_exchange w cfg next_date prev_schema ex r =
     (case request w \<lparr>url_date = next_date, param_base = ex_base ex,
                       param_symbols = ex_symbols ex, header_apikey = apikey cfg\<rparr> r of
        (r1, Inl e) \<Rightarrow> (r1, Some e)
      | (r1, Inr resp) \<Rightarrow>
          (let pl = json_body resp;
               r2 = r1\<lparr>schema := update_schema (map fst (rates pl)) (schema r1)\<rparr>;
               r3 = (if schema_ne (schema r2) prev_schema
                     then r2\<lparr>written := written r2 @ [SCHEMA (schema r2)]\<rparr> else r2)
           in if date pl = next_date then
                (if schemaless cfg then (r3\<lparr>written := written r3 @ [RECORD (Raw pl)]\<rparr>, None)
                 else
                   (case parse_response ((\<lambda>_. [])(0 := rates pl))
                           \<lparr>base = base pl, date = date pl, rates = 0\<rparr> of
                      (h, Inl e) \<Rightarrow> (r3, Some e)
                    | (h, Inr a) \<Rightarrow> (r3\<lparr>written := written r3 @ [RECORD (Flat (h a))]\<rparr>, None)))
              else (r3, None)))"

text \<open>The \<^verbatim>\<open>for\<close> loop: the first exception ends it.\<close>

fun sync_exchanges ::
  "world \<Rightarrow> config \<Rightarrow> string \<Rightarrow> property dict option \<Rightarrow> exchange list \<Rightarrow> run \<Rightarrow> run \<times> exn option" where
  "sync_exchanges w cfg next_date prev_schema [] r = (r, None)"
| "sync_exchanges w cfg next_date prev_schema (ex # exs) r =
     (case sync_exchange w cfg next_date prev_schema ex r of
        (r1, Some e) \<Rightarrow> (r1, Some e)
      | (r1, None) \<Rightarrow> sync_exchanges w cfg next_date prev_schema exs r1)"

text \<open>The local variables of \<^verbatim>\<open>do_sync\<close>; \<open>state\<close> is the value of \<^verbatim>\<open>state['start_date']\<close>.\<close>

record locals =
  state :: string
  next_date :: string
  prev_schema :: "property dict option"

text \<open>
  \<^verbatim>\<open>
  while datetime.strptime(next_date, DATE_FORMAT) <= datetime.utcnow():
      for exchange in exchanges: ...
      state = {'start_date': next_date}
      next_date = (datetime.strptime(next_date, DATE_FORMAT) + timedelta(days=1)).strftime(DATE_FORMAT)
      prev_schema = copy.deepcopy(schema)
  \<close>
  The result is the locals and the run when the loop is left, and the exception that left
  it, if any. \<open>None\<close> is a loop that never ends.
\<close>

partial_function (option) date_loop ::
  "world \<Rightarrow> config \<Rightarrow> locals \<Rightarrow> run \<Rightarrow> (locals \<times> run \<times> exn option) option" where
  "date_loop w cfg l r =
     (case strptime (next_date l) of
        None \<Rightarrow> Some (l, r, Some ValueError)
      | Some d \<Rightarrow>
          if datetime_le (midnight d) (utcnow w (ticks r)) then
            (case sync_exchanges w cfg (next_date l) (prev_schema l) (exchanges cfg)
                    (r\<lparr>ticks := ticks r + 1, walked := walked r @ [next_date l]\<rparr>) of
               (r1, Some e) \<Rightarrow> Some (l, r1, Some e)
             | (r1, None) \<Rightarrow>
                 (case add_day d of
                    None \<Rightarrow> Some (l\<lparr>state := next_date l\<rparr>, r1, Some OverflowError)
                  | Some d' \<Rightarrow>
                      date_loop w cfg
                        \<lparr>state = next_date l, next_date = strftime d',
                         prev_schema = Some (schema r1)\<rparr> r1))
          else Some (l, r\<lparr>ticks := ticks r + 1\<rparr>, None))"

declare date_loop.simps [code]

text \<open>
  How \<^verbatim>\<open>do_sync\<close> and the program end: by returning, by \<^verbatim>\<open>sys.exit(code)\<close>, or with an
  exception nobody caught.
\<close>

datatype outcome = Returned | Exit int | Raised exn

text \<open>
  \<^verbatim>\<open>
  try: <the while loop>
  except requests.exceptions.RequestException as e:
      logger.fatal('Error on ' + e.request.url + '; received status ' + str(e.response.status_code) + ...)
      singer.write_state(state)
      sys.exit(-1)
  singer.write_state(state)
  \<close>
  The handler reads \<^verbatim>\<open>e.response.status_code\<close> before it writes the state.
\<close>

definition do_sync :: "world \<Rightarrow> config \<Rightarrow> string \<Rightarrow> run \<Rightarrow> (run \<times> outcome) option" where
  "do_sync w cfg start r =
     (case date_loop w cfg \<lparr>state = start, next_date = start, prev_schema = None\<rparr> r of
        None \<Rightarrow> None
      | Some (l, r1, None) \<Rightarrow> Some (r1\<lparr>written := written r1 @ [STATE (state l)]\<rparr>, Returned)
      | Some (l, r1, Some e) \<Rightarrow>
          if is_RequestException e then
            (case exn_response e of
               None \<Rightarrow> Some (r1, Raised AttributeError)
             | Some resp \<Rightarrow> Some (r1\<lparr>written := written r1 @ [STATE (state l)]\<rparr>, Exit (- 1)))
          else Some (r1, Raised e))"

subsection \<open>\<^verbatim>\<open>main\<close>\<close>

text \<open>
  \<^verbatim>\<open>args = utils.parse_args(REQUIRED_CONFIG_KEYS)\<close>: the configuration, and the dict of
  the state file (empty when none was given).
\<close>

record args =
  args_config :: config
  args_state :: "string dict"

text \<open>\<^verbatim>\<open>x or y\<close> for an optional string \<open>x\<close>: \<^verbatim>\<open>None\<close> and \<^verbatim>\<open>''\<close> are falsy.\<close>

definition py_or :: "string option \<Rightarrow> string \<Rightarrow> string" where
  "py_or x y = (case x of None \<Rightarrow> y | Some s \<Rightarrow> if s = [] then y else s)"

text \<open>
  \<^verbatim>\<open>
  def main():
      args = utils.parse_args(REQUIRED_CONFIG_KEYS)
      state = {}
      if args.state:
          state.update(args.state)
      else:
          start_date = state.get('start_date') or args.config['start_date']
          start_date = singer.utils.strptime_with_tz(start_date).date().strftime(DATE_FORMAT)
          do_sync(args.config, start_date)
  \<close>
  A dict is truthy when it is not empty.
\<close>

definition main :: "world \<Rightarrow> args \<Rightarrow> run \<Rightarrow> (run \<times> outcome) option" where
  "main w a r =
     (let state0 = ([] :: string dict) in
      if args_state a \<noteq> [] then
        (let state1 = fold (\<lambda>(k, v). AList.update k v) (args_state a) state0
         in Some (r, Returned))
      else
        (let start0 = py_or (map_of state0 ''start_date'') (start_date (args_config a))
         in case strptime_with_tz w start0 of
              None \<Rightarrow> Some (r, Raised ValueError)
            | Some d \<Rightarrow> do_sync w (args_config a) (strftime d) r))"

subsection \<open>Observations on a run\<close>


text \<open>The STATE, SCHEMA and RECORD messages among the messages written.\<close>

fun state_writes :: "message list \<Rightarrow> string list" where
  "state_writes [] = []"
| "state_writes (STATE s # ms) = s # state_writes ms"
| "state_writes (m # ms) = state_writes ms"

fun schema_writes :: "message list \<Rightarrow> property dict list" where
  "schema_writes [] = []"
| "schema_writes (SCHEMA s # ms) = s # schema_writes ms"
| "schema_writes (m # ms) = schema_writes ms"

fun record_writes :: "message list \<Rightarrow> record_body list" where
  "record_writes [] = []"
| "record_writes (RECORD b # ms) = b # record_writes ms"
| "record_writes (m # ms) = record_writes ms"

subsection \<open>Example worlds and configurations\<close>

text \<open>
  A provider that answers every request with status 200 and the rates of EUR and GBP
  for the date asked, a clock that stands at 2024-01-02, one exchange with base USD.
\<close>

definition usd_payload :: "string \<Rightarrow> json dict payload" where
  "usd_payload d = \<lparr>base = ''USD'', date = d, rates = [(''EUR'', JNum 0.9), (''GBP'', JNum 0.8)]\<rparr>"

definition reply :: "nat \<Rightarrow> json dict payload \<Rightarrow> attempt" where
  "reply code pl = Reply \<lparr>status_code = code, body_text = [], json_body = pl\<rparr>"

definition jan2 :: datetime where
  "jan2 = \<lparr>dt_date = \<lparr>year = 2024, month = 1, day = 2\<rparr>, dt_micros = 5\<rparr>"

definition ok_world :: world where
  "ok_world =
     \<lparr>http_get = (\<lambda>k rq. reply 200 (usd_payload (url_date rq))),
      random_random = (\<lambda>k. 1 / 2),
      utcnow = (\<lambda>k. jan2),
      strptime_with_tz = strptime\<rparr>"

definition usd :: exchange where
  "usd = \<lparr>ex_base = ''USD'', ex_symbols = [''EUR'', ''GBP'']\<rparr>"

definition cfg1 :: config where
  "cfg1 = \<lparr>apikey = ''key'', exchanges = [usd], start_date = ''2024-01-01'', schemaless = False\<rparr>"


definition obj1 :: "addr payload" where
  "obj1 = \<lparr>base = ''USD'', date = ''2024-01-01'', rates = 7\<rparr>"

definition heap2 :: heap where
  "heap2 = (\<lambda>_. [])(7 := [(''USD'', JNum 7.5), (''date'', JStr ''provider''), (''EUR'', JNum 0.9)],
                     3 := [(''other'', JNum 2)])"

text \<open>A world whose network is down, and one whose provider answers 503 to everything.\<close>

definition down_world :: world where
  "down_world = ok_world\<lparr>http_get := (\<lambda>k rq. Transport_Failure)\<rparr>"

definition busy_world :: world where
  "busy_world = ok_world\<lparr>http_get := (\<lambda>k rq. reply 503 (usd_payload (url_date rq)))\<rparr>"

definition rq1 :: request where
  "rq1 = \<lparr>url_date = ''2024-01-01'', param_base = ''USD'', param_symbols = [''EUR'', ''GBP''],
          header_apikey = ''key''\<rparr>"

text \<open>The first three days of 2024.\<close>

definition d0101 :: date where
  "d0101 = \<lparr>year = 2024, month = 1, day = 1\<rparr>"

definition d0102 :: date where
  "d0102 = \<lparr>year = 2024, month = 1, day = 2\<rparr>"

definition d0103 :: date where
  "d0103 = \<lparr>year = 2024, month = 1, day = 3\<rparr>"

text \<open>The schema once EUR and GBP have been seen, and the flattened USD record.\<close>

definition eur_gbp_schema :: "property dict" where
  "eur_gbp_schema =
     [(''date'', DateTimeString), (''EUR'', NullableNumber), (''GBP'', NullableNumber)]"

definition flat_usd :: "string \<Rightarrow> json dict" where
  "flat_usd ts = [(''EUR'', JNum 0.9), (''GBP'', JNum 0.8), (''USD'', JNum 1), (''date'', JStr ts)]"

text \<open>
  A clock that stands at 2024-01-01, a second exchange, providers that refuse (403) every
  request or every request but the first, and a provider that answers with the rates of
  another day.
\<close>

definition jan1 :: datetime where
  "jan1 = \<lparr>dt_date = d0101, dt_micros = 5\<rparr>"

definition eur :: exchange where
  "eur = \<lparr>ex_base = ''EUR'', ex_symbols = [''GBP'']\<rparr>"

definition cfg2 :: config where
  "cfg2 = cfg1\<lparr>exchanges := [usd, eur]\<rparr>"

definition jan1_world :: world where
  "jan1_world = ok_world\<lparr>utcnow := (\<lambda>k. jan1)\<rparr>"

definition forbidden_world :: world where
  "forbidden_world = ok_world\<lparr>http_get := (\<lambda>k rq. reply 403 (usd_payload (url_date rq)))\<rparr>"

definition late_forbidden_world :: world where
  "late_forbidden_world =
     ok_world\<lparr>http_get := (\<lambda>k rq. reply (if k = 0 then 200 else 403) (usd_payload (url_date rq)))\<rparr>"

definition stale_payload :: "json dict payload" where
  "stale_payload = \<lparr>base = ''USD'', date = ''2023-12-31'', rates = [(''JPY'', JNum 150)]\<rparr>"

definition stale_world :: world where
  "stale_world = ok_world\<lparr>http_get := (\<lambda>k rq. reply 200 stale_payload)\<rparr>"

text \<open>
  How the date being processed relates to the dates completed before it: it is the start
  date when there are none, and the day after the last of them otherwise.
\<close>

definition follows :: "string \<Rightarrow> string list \<Rightarrow> string \<Rightarrow> bool" where
  "follows start completed nd \<longleftrightarrow>
     (if completed = [] then nd = start
      else (case strptime (last completed) of
              None \<Rightarrow> False
            | Some d \<Rightarrow> (case add_day d of None \<Rightarrow> False | Some d' \<Rightarrow> nd = strftime d')))"


definition forbidden_final :: run where
  "forbidden_final =
     \<lparr>written = [STATE ''2024-01-01''], slept = [], calls = 1, ticks = 1,
      schema = initial_schema, walked = [''2024-01-01'']\<rparr>"

definition late_forbidden_final :: run where
  "late_forbidden_final =
     \<lparr>written = [SCHEMA eur_gbp_schema,
                 RECORD (Flat (flat_usd ''2024-01-01T00:00:00Z'')),
                 STATE ''2024-01-01''],
      slept = [], calls = 2, ticks = 2, schema = eur_gbp_schema,
      walked = [''2024-01-01'', ''2024-01-02'']\<rparr>"

subsection \<open>Facts about dates\<close>

lemma digit_char_is_digit [simp]: "is_digit (digit_char n)"
  by (simp add: is_digit_def digit_char_def)

lemma digit_val_digit_char [simp]: "digit_val (digit_char n) = n mod 10"
  by (simp add: digit_val_def digit_char_def)

lemma digit_char_not_dash [simp]: "digit_char n \<noteq> CHR ''-''"
proof
  assume "digit_char n = CHR ''-''"
  then have "digit_val (digit_char n) = digit_val (CHR ''-'')" by simp
  then have "is_digit (CHR ''-'')" using digit_char_is_digit [of n] \<open>digit_char n = CHR ''-''\<close> by simp
  then show False by (simp add: is_digit_def)
qed

lemma digit_char_eq_iff: "digit_char n = c \<longleftrightarrow> is_digit c \<and> digit_val c = n mod 10"
proof
  assume "digit_char n = c"
  then show "is_digit c \<and> digit_val c = n mod 10" by auto
next
  assume h: "is_digit c \<and> digit_val c = n mod 10"
  then have "(of_char c :: nat) = 48 + n mod 10"
    by (auto simp: is_digit_def digit_val_def)
  then have "char_of (of_char c :: nat) = (char_of (48 + n mod 10) :: char)" by simp
  then show "digit_char n = c" by (simp add: digit_char_def)
qed

lemma digit_char_consts [simp]:
  "digit_char n = CHR ''0'' \<longleftrightarrow> n mod 10 = 0"
  "digit_char n = CHR ''1'' \<longleftrightarrow> n mod 10 = 1"
  "digit_char n = CHR ''2'' \<longleftrightarrow> n mod 10 = 2"
  "digit_char n = CHR ''3'' \<longleftrightarrow> n mod 10 = 3"
  "digit_char n \<noteq> CHR '' ''"
  by (auto simp: digit_char_eq_iff is_digit_def digit_val_def)














subsection \<open>Claim C1: a checkpoint given at startup\<close>

text \<open>
  C1 says that a run started with a checkpoint state performs the date-walking sync from
  the state's \<open>start_date\<close>. The code does the sync in the \<^verbatim>\<open>else\<close> branch of
  \<^verbatim>\<open>if args.state\<close> only: whenever the state given is not empty, \<^verbatim>\<open>main\<close> copies it
  into a local dict and returns. Nothing is fetched, nothing is written, the clock is
  never read; the lookup \<^verbatim>\<open>state.get('start_date')\<close> in the other branch always reads the
  empty dict.
\<close>

theorem main_with_state_does_not_sync:
  "args_state a \<noteq> [] \<Longrightarrow> main w a r = Some (r, Returned)"
  by (simp add: main_def)

theorem main_with_state_does_not_sync_witness:
  "[(''start_date'', ''2024-01-01'')] \<noteq> ([] :: string dict) \<and>
   main ok_world \<lparr>args_config = cfg1, args_state = [(''start_date'', ''2024-01-01'')]\<rparr> initial_run
     = Some (initial_run, Returned)"
  using main_with_state_does_not_sync
    [of "\<lparr>args_config = cfg1, args_state = [(''start_date'', ''2024-01-01'')]\<rparr>" ok_world initial_run]
  by simp

text \<open>Without a state the configured start date is the one used.\<close>

lemma main_without_state:
  "args_state a = [] \<Longrightarrow> strptime_with_tz w (start_date (args_config a)) = Some d \<Longrightarrow>
   main w a r = do_sync w (args_config a) (strftime d) r"
  by (simp add: main_def py_or_def)

subsection \<open>Claims C9 and C10: \<^verbatim>\<open>parse_response\<close>\<close>

lemma parse_response_eq:
  "strptime (date r) = Some t \<Longrightarrow>
   parse_response h r =
     (h(rates r := AList.update ''date'' (JStr (strftime_iso t))
                     (AList.update (base r) (JNum 1) (h (rates r)))),
      Inr (rates r))"
  by (simp add: parse_response_def Let_def)

lemma parse_response_error:
  "strptime (date r) = None \<Longrightarrow>
   parse_response h r = (h(rates r := AList.update (base r) (JNum 1) (h (rates r))), Inl ValueError)"
  by (simp add: parse_response_def Let_def)




text \<open>
  C10: \<^verbatim>\<open>parse_response\<close> returns the reference the payload holds in \<open>rates\<close>, not a copy.
  After the call that one dictionary has the base at 1.0 and \<^verbatim>\<open>date\<close> at the timestamp,
  whatever the provider had sent under those keys; every other object of the store is as
  before; and the payload's own rates have changed unless they already held the
  timestamp.
\<close>

theorem parse_response_aliases_and_mutates:
  assumes "strptime (date r) = Some t"
  shows "\<exists>h'. parse_response h r = (h', Inr (rates r)) \<and>
           h' (rates r) = AList.update ''date'' (JStr (strftime_iso t))
                            (AList.update (base r) (JNum 1) (h (rates r))) \<and>
           (\<forall>a. a \<noteq> rates r \<longrightarrow> h' a = h a) \<and>
           map_of (h' (rates r)) ''date'' = Some (JStr (strftime_iso t)) \<and>
           (base r \<noteq> ''date'' \<longrightarrow> map_of (h' (rates r)) (base r) = Some (JNum 1)) \<and>
           (map_of (h (rates r)) ''date'' \<noteq> Some (JStr (strftime_iso t)) \<longrightarrow>
              h' (rates r) \<noteq> h (rates r))"
proof -
  let ?new = "AList.update ''date'' (JStr (strftime_iso t)) (AList.update (base r) (JNum 1) (h (rates r)))"
  have m: "map_of ?new ''date'' = Some (JStr (strftime_iso t))"
    by (simp add: update_conv')
  have b: "base r \<noteq> ''date'' \<longrightarrow> map_of ?new (base r) = Some (JNum 1)"
    by (simp add: update_conv')
  have c: "map_of (h (rates r)) ''date'' \<noteq> Some (JStr (strftime_iso t)) \<longrightarrow> ?new \<noteq> h (rates r)"
    using m by metis
  show ?thesis
    unfolding parse_response_eq [OF assms] using m b c by simp
qed

theorem parse_response_aliases_and_mutates_witness:
  "strptime (date obj1) = Some \<lparr>year = 2024, month = 1, day = 1\<rparr> \<and>
   (\<exists>h'. parse_response heap2 obj1 = (h', Inr 7) \<and>
      h' 7 = [(''USD'', JNum 1), (''date'', JStr ''2024-01-01T00:00:00Z''), (''EUR'', JNum 0.9)] \<and>
      h' 3 = heap2 3 \<and> h' 7 \<noteq> heap2 7)"
proof -
  have p: "strptime (date obj1) = Some \<lparr>year = 2024, month = 1, day = 1\<rparr>"
    by code_simp
  have iso: "strftime_iso \<lparr>year = 2024, month = 1, day = 1\<rparr> = ''2024-01-01T00:00:00Z''"
    by code_simp
  have r7: "rates obj1 = 7" and bs: "base obj1 = ''USD''" by (simp_all add: obj1_def)
  from parse_response_aliases_and_mutates [OF p, of heap2]
  obtain h' where h': "parse_response heap2 obj1 = (h', Inr (rates obj1))"
    and new: "h' (rates obj1) = AList.update ''date'' (JStr (strftime_iso \<lparr>year = 2024, month = 1, day = 1\<rparr>))
                            (AList.update (base obj1) (JNum 1) (heap2 (rates obj1)))"
    and frame: "\<forall>a. a \<noteq> rates obj1 \<longrightarrow> h' a = heap2 a"
    by blast
  have h7: "heap2 7 = [(''USD'', JNum 7.5), (''date'', JStr ''provider''), (''EUR'', JNum 0.9)]"
    by (simp add: heap2_def)
  have a: "h' 7 = [(''USD'', JNum 1), (''date'', JStr ''2024-01-01T00:00:00Z''), (''EUR'', JNum 0.9)]"
    using new unfolding r7 bs iso h7 by simp
  have b: "h' 3 = heap2 3" using frame r7 by simp
  have c: "h' 7 \<noteq> heap2 7" unfolding a h7 by simp
  from p h' a b c r7 show ?thesis by auto
qed

subsection \<open>Claim C6: the retry policy\<close>

lemma on_exception_ok:
  "get_once w (calls r) rq = Inr ret \<Longrightarrow>
   on_exception w left rq r = (r\<lparr>calls := calls r + 1\<rparr>, Inr ret)"
  by (subst on_exception.simps) simp

lemma on_exception_crash:
  "get_once w (calls r) rq = Inl ConnectionError \<Longrightarrow>
   on_exception w left rq r = (r\<lparr>calls := calls r + 1\<rparr>, Inl AttributeError)"
  by (subst on_exception.simps) (simp add: giveup_def)

lemma on_exception_giveup:
  "get_once w (calls r) rq = Inl (HTTPError resp) \<Longrightarrow>
   \<not> (status_code resp = 429 \<or> status_code resp \<ge> 500) \<Longrightarrow>
   on_exception w left rq r = (r\<lparr>calls := calls r + 1\<rparr>, Inl (HTTPError resp))"
  by (subst on_exception.simps) (simp add: giveup_def)

lemma on_exception_last:
  "get_once w (calls r) rq = Inl (HTTPError resp) \<Longrightarrow> left \<le> 1 \<Longrightarrow>
   on_exception w left rq r = (r\<lparr>calls := calls r + 1\<rparr>, Inl (HTTPError resp))"
  by (subst on_exception.simps) (simp add: giveup_def)

lemma on_exception_retry:
  "get_once w (calls r) rq = Inl (HTTPError resp) \<Longrightarrow>
   status_code resp = 429 \<or> status_code resp \<ge> 500 \<Longrightarrow> 1 < left \<Longrightarrow>
   on_exception w left rq r =
     on_exception w (left - 1) rq
       (r\<lparr>calls := calls r + 1, slept := slept r @ [interval + random_random w (calls r)]\<rparr>)"
  by (subst on_exception.simps) (auto simp add: giveup_def)

lemma get_once_failure:
  "http_get w k rq = Transport_Failure \<Longrightarrow> get_once w k rq = Inl ConnectionError"
  by (simp add: get_once_def)

lemma get_once_error_status:
  "http_get w k rq = Reply resp \<Longrightarrow> 400 \<le> status_code resp \<Longrightarrow> status_code resp < 600 \<Longrightarrow>
   get_once w k rq = Inl (HTTPError resp)"
  by (simp add: get_once_def)

lemma get_once_success:
  "http_get w k rq = Reply resp \<Longrightarrow> status_code resp < 400 \<or> 600 \<le> status_code resp \<Longrightarrow>
   get_once w k rq = Inr resp"
  by (auto simp add: get_once_def)

lemma on_exception_frame:
  "on_exception w left rq r = (r', res) \<Longrightarrow>
   written r' = written r \<and> schema r' = schema r \<and> ticks r' = ticks r \<and> walked r' = walked r"
proof (induction w left rq r arbitrary: r' res rule: on_exception.induct)
  case (1 w left rq r)
  show ?case
  proof (cases "get_once w (calls r) rq")
    case (Inr ret)
    with "1.prems" show ?thesis by (auto simp: on_exception_ok)
  next
    case (Inl e)
    show ?thesis
    proof (cases "giveup e")
      case (Inl crash)
      with \<open>get_once w (calls r) rq = Inl e\<close> "1.prems" show ?thesis
        by (subst (asm) on_exception.simps) auto
    next
      case (Inr g)
      show ?thesis
      proof (cases "g \<or> left \<le> 1")
        case True
        with Inr \<open>get_once w (calls r) rq = Inl e\<close> "1.prems" show ?thesis
          by (subst (asm) on_exception.simps) auto
      next
        case False
        with Inr \<open>get_once w (calls r) rq = Inl e\<close> "1.prems"
        have "on_exception w (left - 1) rq
                (r\<lparr>calls := calls r + 1, slept := slept r @ [interval + random_random w (calls r)]\<rparr>) = (r', res)"
          by (subst (asm) on_exception.simps) auto
        from "1.IH" [OF \<open>get_once w (calls r) rq = Inl e\<close> Inr False this]
        show ?thesis by simp
      qed
    qed
  qed
qed

text \<open>The retry policy on HTTP statuses.\<close>

lemma request_gives_up_at_once:
  assumes "http_get w (calls r) rq = Reply resp"
    and "400 \<le> status_code resp" and "status_code resp < 500" and "status_code resp \<noteq> 429"
  shows "request w rq r = (r\<lparr>calls := calls r + 1\<rparr>, Inl (HTTPError resp))"
proof -
  have "get_once w (calls r) rq = Inl (HTTPError resp)"
    using assms by (simp add: get_once_error_status)
  then show ?thesis unfolding request_def using assms by (simp add: on_exception_giveup)
qed

lemma request_retries_five_times:
  assumes g: "\<And>i. i < 5 \<Longrightarrow> http_get w (calls r + i) rq = Reply (resp i)"
    and s: "\<And>i. i < 5 \<Longrightarrow> status_code (resp i) = 429 \<or>
                         (500 \<le> status_code (resp i) \<and> status_code (resp i) < 600)"
  shows "request w rq r =
           (r\<lparr>calls := calls r + 5,
              slept := slept r @ [interval + random_random w (calls r),
                                  interval + random_random w (calls r + 1),
                                  interval + random_random w (calls r + 2),
                                  interval + random_random w (calls r + 3)]\<rparr>,
            Inl (HTTPError (resp 4)))"
proof -
  have e: "get_once w (calls r + i) rq = Inl (HTTPError (resp i))" if "i < 5" for i
  proof -
    from s [OF that] have "400 \<le> status_code (resp i) \<and> status_code (resp i) < 600" by auto
    with g [OF that] show ?thesis by (simp add: get_once_error_status)
  qed
  have t: "status_code (resp i) = 429 \<or> status_code (resp i) \<ge> 500" if "i < 5" for i
    using s [OF that] by auto
  define r1 where "r1 = r\<lparr>calls := calls r + 1, slept := slept r @ [interval + random_random w (calls r)]\<rparr>"
  define r2 where "r2 = r1\<lparr>calls := calls r1 + 1, slept := slept r1 @ [interval + random_random w (calls r1)]\<rparr>"
  define r3 where "r3 = r2\<lparr>calls := calls r2 + 1, slept := slept r2 @ [interval + random_random w (calls r2)]\<rparr>"
  define r4 where "r4 = r3\<lparr>calls := calls r3 + 1, slept := slept r3 @ [interval + random_random w (calls r3)]\<rparr>"
  have c: "calls r1 = calls r + 1" "calls r2 = calls r + 2" "calls r3 = calls r + 3" "calls r4 = calls r + 4"
    by (simp_all add: r1_def r2_def r3_def r4_def)
  have "on_exception w 5 rq r = on_exception w 4 rq r1"
    using on_exception_retry [of w r rq "resp 0" 5] e [of 0] t [of 0] by (simp add: r1_def)
  also have "\<dots> = on_exception w 3 rq r2"
    using on_exception_retry [of w r1 rq "resp 1" 4] e [of 1] t [of 1] by (simp add: r2_def c)
  also have "\<dots> = on_exception w 2 rq r3"
    using on_exception_retry [of w r2 rq "resp 2" 3] e [of 2] t [of 2] by (simp add: r3_def c)
  also have "\<dots> = on_exception w 1 rq r4"
    using on_exception_retry [of w r3 rq "resp 3" 2] e [of 3] t [of 3] by (simp add: r4_def c)
  also have "\<dots> = (r4\<lparr>calls := calls r4 + 1\<rparr>, Inl (HTTPError (resp 4)))"
    using on_exception_last [of w r4 rq "resp 4" 1] e [of 4] by (simp add: c)
  finally show ?thesis
    by (simp add: request_def max_tries_def r1_def r2_def r3_def r4_def eval_nat_numeral)
qed

text \<open>
  C6 says that a failed attempt is retried, up to five attempts, when its cause is a
  network failure, a 429 or a 5xx, and that any other failing status gives up at once.
  For the HTTP statuses this is what \<open>request\<close> does (the two lemmas above). A network
  failure is not retried: the exception carries no response, \<^verbatim>\<open>giveup\<close> dereferences it
  and raises \<^verbatim>\<open>AttributeError\<close> on the first attempt, before any wait.
\<close>

theorem request_network_failure_not_retried:
  "http_get w (calls r) rq = Transport_Failure \<Longrightarrow>
   request w rq r = (r\<lparr>calls := calls r + 1\<rparr>, Inl AttributeError)"
  unfolding request_def by (simp add: on_exception_crash get_once_failure)

theorem request_network_failure_not_retried_witness:
  "http_get down_world (calls initial_run) rq1 = Transport_Failure \<and>
   request down_world rq1 initial_run = (initial_run\<lparr>calls := 1\<rparr>, Inl AttributeError)"
  using request_network_failure_not_retried [of down_world initial_run rq1]
  by (simp add: down_world_def initial_run_def)

lemma request_busy_world:
  "request busy_world rq1 initial_run =
     (initial_run\<lparr>calls := 5, slept := [30 + 1 / 2, 30 + 1 / 2, 30 + 1 / 2, 30 + 1 / 2]\<rparr>,
      Inl (HTTPError \<lparr>status_code = 503, body_text = [], json_body = usd_payload ''2024-01-01''\<rparr>))"
  using request_retries_five_times
    [of busy_world initial_run rq1
        "\<lambda>i. \<lparr>status_code = 503, body_text = [], json_body = usd_payload ''2024-01-01''\<rparr>"]
  by (simp add: busy_world_def ok_world_def reply_def rq1_def initial_run_def interval_def)

subsection \<open>The schema only grows\<close>

lemma update_absent: "map_of al k = None \<Longrightarrow> AList.update k v al = al @ [(k, v)]"
  by (induction al) auto

lemma observe_prefix: "prefix props (observe rate props)"
  by (simp add: observe_def update_absent)

lemma update_schema_prefix: "prefix props (update_schema codes props)"
  unfolding update_schema_def
proof (induction codes arbitrary: props)
  case Nil
  show ?case by simp
next
  case (Cons c cs)
  have "prefix props (observe c props)" by (rule observe_prefix)
  also have "prefix (observe c props) (fold observe cs (observe c props))" by (rule Cons.IH)
  finally show ?case by simp
qed

lemma prefix_map_of: "prefix xs ys \<Longrightarrow> map_of xs k = Some v \<Longrightarrow> map_of ys k = Some v"
  by (auto simp: prefix_def map_add_Some_iff)

lemma observe_keys: "fst ` set (observe rate props) = insert rate (fst ` set props)"
  by (auto simp: observe_def dom_update map_of_eq_None_iff)

lemma update_schema_keys: "fst ` set (update_schema codes props) = fst ` set props \<union> set codes"
  unfolding update_schema_def
  by (induction codes arbitrary: props) (auto simp: observe_keys)

lemma observe_distinct: "distinct (map fst props) \<Longrightarrow> distinct (map fst (observe rate props))"
  by (simp add: observe_def distinct_update)

lemma update_schema_distinct:
  "distinct (map fst props) \<Longrightarrow> distinct (map fst (update_schema codes props))"
  unfolding update_schema_def
  by (induction codes arbitrary: props) (auto simp: observe_distinct)

lemma observe_new_type: "(k, v) \<in> set (observe rate props) \<Longrightarrow> (k, v) \<in> set props \<or> v = NullableNumber"
  by (auto simp: observe_def update_absent split: if_splits)

lemma update_schema_new_type:
  "(k, v) \<in> set (update_schema codes props) \<Longrightarrow> (k, v) \<in> set props \<or> v = NullableNumber"
  unfolding update_schema_def
  by (induction codes arbitrary: props) (auto dest: observe_new_type)

lemma state_writes_append [simp]: "state_writes (xs @ ys) = state_writes xs @ state_writes ys"
  by (induction xs rule: state_writes.induct) auto

lemma record_writes_append [simp]: "record_writes (xs @ ys) = record_writes xs @ record_writes ys"
  by (induction xs rule: record_writes.induct) auto

lemma schema_writes_append [simp]: "schema_writes (xs @ ys) = schema_writes xs @ schema_writes ys"
  by (induction xs rule: schema_writes.induct) auto

lemma request_frame:
  "request w rq r = (r', res) \<Longrightarrow>
   written r' = written r \<and> schema r' = schema r \<and> ticks r' = ticks r \<and> walked r' = walked r"
  unfolding request_def by (rule on_exception_frame)

subsection \<open>Reasoning about the loop over dates\<close>


lemma date_loop_done:
  "strptime (next_date l) = Some d \<Longrightarrow> \<not> datetime_le (midnight d) (utcnow w (ticks r)) \<Longrightarrow>
   date_loop w cfg l r = Some (l, r\<lparr>ticks := ticks r + 1\<rparr>, None)"
  by (subst date_loop.simps) simp

lemma date_loop_fail:
  "strptime (next_date l) = Some d \<Longrightarrow> datetime_le (midnight d) (utcnow w (ticks r)) \<Longrightarrow>
   sync_exchanges w cfg (next_date l) (prev_schema l) (exchanges cfg)
     (r\<lparr>ticks := ticks r + 1, walked := walked r @ [next_date l]\<rparr>) = (r1, Some e) \<Longrightarrow>
   date_loop w cfg l r = Some (l, r1, Some e)"
  by (subst date_loop.simps) simp


lemma date_loop_step:
  "strptime (next_date l) = Some d \<Longrightarrow> datetime_le (midnight d) (utcnow w (ticks r)) \<Longrightarrow>
   sync_exchanges w cfg (next_date l) (prev_schema l) (exchanges cfg)
     (r\<lparr>ticks := ticks r + 1, walked := walked r @ [next_date l]\<rparr>) = (r1, None) \<Longrightarrow>
   add_day d = Some d' \<Longrightarrow>
   date_loop w cfg l r =
     date_loop w cfg \<lparr>state = next_date l, next_date = strftime d', prev_schema = Some (schema r1)\<rparr> r1"
  by (subst date_loop.simps) simp

lemma date_loop_rule:
  assumes run: "date_loop w cfg l r = Some (l', r', x)"
    and inv: "I l r"
    and step: "\<And>l r d r1 d'. \<lbrakk>I l r; strptime (next_date l) = Some d;
        datetime_le (midnight d) (utcnow w (ticks r));
        sync_exchanges w cfg (next_date l) (prev_schema l) (exchanges cfg)
          (r\<lparr>ticks := ticks r + 1, walked := walked r @ [next_date l]\<rparr>) = (r1, None);
        add_day d = Some d'\<rbrakk>
        \<Longrightarrow> I \<lparr>state = next_date l, next_date = strftime d', prev_schema = Some (schema r1)\<rparr> r1"
    and bad: "\<And>l r. \<lbrakk>I l r; strptime (next_date l) = None\<rbrakk> \<Longrightarrow> Q l r (Some ValueError)"
    and fin: "\<And>l r d. \<lbrakk>I l r; strptime (next_date l) = Some d;
        \<not> datetime_le (midnight d) (utcnow w (ticks r))\<rbrakk> \<Longrightarrow> Q l (r\<lparr>ticks := ticks r + 1\<rparr>) None"
    and fail: "\<And>l r d r1 e. \<lbrakk>I l r; strptime (next_date l) = Some d;
        datetime_le (midnight d) (utcnow w (ticks r));
        sync_exchanges w cfg (next_date l) (prev_schema l) (exchanges cfg)
          (r\<lparr>ticks := ticks r + 1, walked := walked r @ [next_date l]\<rparr>) = (r1, Some e)\<rbrakk>
        \<Longrightarrow> Q l r1 (Some e)"
    and over: "\<And>l r d r1. \<lbrakk>I l r; strptime (next_date l) = Some d;
        datetime_le (midnight d) (utcnow w (ticks r));
        sync_exchanges w cfg (next_date l) (prev_schema l) (exchanges cfg)
          (r\<lparr>ticks := ticks r + 1, walked := walked r @ [next_date l]\<rparr>) = (r1, None);
        add_day d = None\<rbrakk>
        \<Longrightarrow> Q (l\<lparr>state := next_date l\<rparr>) r1 (Some OverflowError)"
  shows "Q l' r' x"
proof -
  have "w0 = w \<longrightarrow> cfg0 = cfg \<longrightarrow> I l0 r0 \<longrightarrow> Q (fst y) (fst (snd y)) (snd (snd y))"
    if "date_loop w0 cfg0 l0 r0 = Some y" for w0 cfg0 l0 r0 y
  proof (rule date_loop.raw_induct
      [where P = "\<lambda>w0 cfg0 l0 r0 y. w0 = w \<longrightarrow> cfg0 = cfg \<longrightarrow> I l0 r0 \<longrightarrow> Q (fst y) (fst (snd y)) (snd (snd y))",
        OF _ that])
    fix f w0 cfg0 l0 r0 y
    assume IH: "\<And>w0 cfg0 l0 r0 y. f w0 cfg0 l0 r0 = Some y \<Longrightarrow>
        w0 = w \<longrightarrow> cfg0 = cfg \<longrightarrow> I l0 r0 \<longrightarrow> Q (fst y) (fst (snd y)) (snd (snd y))"
    assume body: "(case strptime (next_date l0) of None \<Rightarrow> Some (l0, r0, Some ValueError)
      | Some d \<Rightarrow>
          if datetime_le (midnight d) (utcnow w0 (ticks r0))
          then case sync_exchanges w0 cfg0 (next_date l0) (prev_schema l0) (exchanges cfg0)
                     (r0\<lparr>ticks := ticks r0 + 1, walked := walked r0 @ [next_date l0]\<rparr>) of
               (r1, None) \<Rightarrow>
                 (case add_day d of
                    None \<Rightarrow> Some (l0\<lparr>state := next_date l0\<rparr>, r1, Some OverflowError)
                  | Some d' \<Rightarrow>
                     f w0 cfg0
                      \<lparr>state = next_date l0, next_date = strftime d', prev_schema = Some (schema r1)\<rparr> r1)
               | (r1, Some e) \<Rightarrow> Some (l0, r1, Some e)
          else Some (l0, r0\<lparr>ticks := ticks r0 + 1\<rparr>, None)) = Some y"
    show "w0 = w \<longrightarrow> cfg0 = cfg \<longrightarrow> I l0 r0 \<longrightarrow> Q (fst y) (fst (snd y)) (snd (snd y))"
    proof (intro impI)
      assume w0: "w0 = w" and c0: "cfg0 = cfg" and I0: "I l0 r0"
      show "Q (fst y) (fst (snd y)) (snd (snd y))"
      proof (cases "strptime (next_date l0)")
        case None
        with body have "y = (l0, r0, Some ValueError)" by simp
        with bad [OF I0 None] show ?thesis by simp
      next
        case (Some d)
        show ?thesis
        proof (cases "datetime_le (midnight d) (utcnow w (ticks r0))")
          case False
          with body Some w0 have "y = (l0, r0\<lparr>ticks := ticks r0 + 1\<rparr>, None)" by simp
          with fin [OF I0 Some False] show ?thesis by simp
        next
          case True
          obtain r1 xo where se: "sync_exchanges w cfg (next_date l0) (prev_schema l0) (exchanges cfg)
                     (r0\<lparr>ticks := ticks r0 + 1, walked := walked r0 @ [next_date l0]\<rparr>) = (r1, xo)"
            by (cases "sync_exchanges w cfg (next_date l0) (prev_schema l0) (exchanges cfg)
                     (r0\<lparr>ticks := ticks r0 + 1, walked := walked r0 @ [next_date l0]\<rparr>)") auto
          show ?thesis
          proof (cases xo)
            case (Some e)
            with body \<open>strptime (next_date l0) = Some d\<close> True se w0 c0
            have "y = (l0, r1, Some e)" by simp
            with fail [OF I0 \<open>strptime (next_date l0) = Some d\<close> True se [unfolded Some]]
            show ?thesis by simp
          next
            case None
            note se' = se [unfolded None]
            show ?thesis
            proof (cases "add_day d")
              case None
              with body \<open>strptime (next_date l0) = Some d\<close> True se' w0 c0
              have "y = (l0\<lparr>state := next_date l0\<rparr>, r1, Some OverflowError)" by simp
              with over [OF I0 \<open>strptime (next_date l0) = Some d\<close> True se' None]
              show ?thesis by simp
            next
              case (Some d')
              with body \<open>strptime (next_date l0) = Some d\<close> True se' w0 c0
              have "f w cfg \<lparr>state = next_date l0, next_date = strftime d',
                      prev_schema = Some (schema r1)\<rparr> r1 = Some y" by simp
              from IH [OF this]
                step [OF I0 \<open>strptime (next_date l0) = Some d\<close> True se' Some]
              show ?thesis by simp
            qed
          qed
        qed
      qed
    qed
  qed
  from this [OF run] inv show ?thesis by simp
qed

subsection \<open>One exchange, and the exchanges of one date\<close>

text \<open>What one exchange does to the run, by the way the fetch ends.\<close>

lemma sync_exchange_failed:
  "request w \<lparr>url_date = nd, param_base = ex_base ex, param_symbols = ex_symbols ex,
              header_apikey = apikey cfg\<rparr> r = (r1, Inl e) \<Longrightarrow>
   sync_exchange w cfg nd prev ex r = (r1, Some e)"
  by (simp add: sync_exchange_def)

lemma sync_exchange_mismatch:
  "request w \<lparr>url_date = nd, param_base = ex_base ex, param_symbols = ex_symbols ex,
              header_apikey = apikey cfg\<rparr> r = (r1, Inr resp) \<Longrightarrow>
   date (json_body resp) \<noteq> nd \<Longrightarrow>
   sync_exchange w cfg nd prev ex r =
     (r1\<lparr>schema := update_schema (map fst (rates (json_body resp))) (schema r1),
         written := written r1 @
           (if schema_ne (update_schema (map fst (rates (json_body resp))) (schema r1)) prev
            then [SCHEMA (update_schema (map fst (rates (json_body resp))) (schema r1))] else [])\<rparr>,
      None)"
  by (simp add: sync_exchange_def Let_def)


lemma sync_exchange_flat:
  "request w \<lparr>url_date = nd, param_base = ex_base ex, param_symbols = ex_symbols ex,
              header_apikey = apikey cfg\<rparr> r = (r1, Inr resp) \<Longrightarrow>
   date (json_body resp) = nd \<Longrightarrow> \<not> schemaless cfg \<Longrightarrow> strptime nd = Some t \<Longrightarrow>
   sync_exchange w cfg nd prev ex r =
     (r1\<lparr>schema := update_schema (map fst (rates (json_body resp))) (schema r1),
         written := written r1 @
           (if schema_ne (update_schema (map fst (rates (json_body resp))) (schema r1)) prev
            then [SCHEMA (update_schema (map fst (rates (json_body resp))) (schema r1))] else []) @
           [RECORD (Flat (AList.update ''date'' (JStr (strftime_iso t))
                            (AList.update (base (json_body resp)) (JNum 1)
                               (rates (json_body resp)))))]\<rparr>,
      None)"
  by (simp add: sync_exchange_def Let_def parse_response_def)

lemma sync_exchange_frame:
  assumes "sync_exchange w cfg nd prev ex r = (r', x)"
  shows "prefix (schema r) (schema r') \<and> prefix (written r) (written r') \<and>
         state_writes (written r') = state_writes (written r) \<and>
         ticks r' = ticks r \<and> walked r' = walked r"
proof -
  let ?rq = "\<lparr>url_date = nd, param_base = ex_base ex, param_symbols = ex_symbols ex,
              header_apikey = apikey cfg\<rparr>"
  obtain r1 res where rq: "request w ?rq r = (r1, res)" by (cases "request w ?rq r") auto
  note fr = request_frame [OF rq]
  show ?thesis
  proof (cases res)
    case (Inl e)
    with assms rq fr show ?thesis by (simp add: sync_exchange_def)
  next
    case (Inr resp)
    have p: "prefix (schema r) (update_schema (map fst (rates (json_body resp))) (schema r1))"
      using fr update_schema_prefix [of "schema r1"] by simp
    from assms rq Inr fr p show ?thesis
      by (auto simp: sync_exchange_def Let_def parse_response_def
               split: if_splits option.splits)
  qed
qed

lemma sync_exchanges_frame:
  "sync_exchanges w cfg nd prev exs r = (r', x) \<Longrightarrow>
   prefix (schema r) (schema r') \<and> prefix (written r) (written r') \<and>
   state_writes (written r') = state_writes (written r) \<and>
   ticks r' = ticks r \<and> walked r' = walked r"
proof (induction exs arbitrary: r)
  case Nil
  then show ?case by simp
next
  case (Cons ex exs)
  obtain r1 x1 where s1: "sync_exchange w cfg nd prev ex r = (r1, x1)"
    by (cases "sync_exchange w cfg nd prev ex r") auto
  note f1 = sync_exchange_frame [OF s1]
  show ?case
  proof (cases x1)
    case (Some e)
    with Cons.prems s1 f1 show ?thesis by simp
  next
    case None
    with Cons.prems s1 have "sync_exchanges w cfg nd prev exs r1 = (r', x)" by simp
    from Cons.IH [OF this] f1 show ?thesis
      by (auto intro: prefix_order.trans)
  qed
qed

lemma request_ok:
  "http_get w (calls r) rq = Reply resp \<Longrightarrow> status_code resp < 400 \<Longrightarrow>
   request w rq r = (r\<lparr>calls := calls r + 1\<rparr>, Inr resp)"
  unfolding request_def by (simp add: on_exception_ok get_once_success)

lemma date_loop_frame:
  assumes "date_loop w cfg l r = Some (l', r', x)"
  shows "prefix (schema r) (schema r') \<and> prefix (written r) (written r') \<and>
         state_writes (written r') = state_writes (written r) \<and>
         prefix (walked r) (walked r')"
proof (rule date_loop_rule [OF assms,
    where I = "\<lambda>l0 r0. prefix (schema r) (schema r0) \<and> prefix (written r) (written r0) \<and>
         state_writes (written r0) = state_writes (written r) \<and> prefix (walked r) (walked r0)"
      and Q = "\<lambda>l0 r0 x0. prefix (schema r) (schema r0) \<and> prefix (written r) (written r0) \<and>
         state_writes (written r0) = state_writes (written r) \<and> prefix (walked r) (walked r0)"])
  show "prefix (schema r) (schema r) \<and> prefix (written r) (written r) \<and>
         state_writes (written r) = state_writes (written r) \<and> prefix (walked r) (walked r)"
    by simp
next
  fix l0 r0 d r1 d'
  assume I: "prefix (schema r) (schema r0) \<and> prefix (written r) (written r0) \<and>
         state_writes (written r0) = state_writes (written r) \<and> prefix (walked r) (walked r0)"
    and se: "sync_exchanges w cfg (next_date l0) (prev_schema l0) (exchanges cfg)
          (r0\<lparr>ticks := ticks r0 + 1, walked := walked r0 @ [next_date l0]\<rparr>) = (r1, None)"
  from sync_exchanges_frame [OF se] I
  show "prefix (schema r) (schema r1) \<and> prefix (written r) (written r1) \<and>
         state_writes (written r1) = state_writes (written r) \<and> prefix (walked r) (walked r1)"
    by (auto intro: prefix_order.trans)
next
  fix l0 r0
  assume "prefix (schema r) (schema r0) \<and> prefix (written r) (written r0) \<and>
         state_writes (written r0) = state_writes (written r) \<and> prefix (walked r) (walked r0)"
  then show "prefix (schema r) (schema r0) \<and> prefix (written r) (written r0) \<and>
         state_writes (written r0) = state_writes (written r) \<and> prefix (walked r) (walked r0)" .
next
  fix l0 r0 d
  assume "prefix (schema r) (schema r0) \<and> prefix (written r) (written r0) \<and>
         state_writes (written r0) = state_writes (written r) \<and> prefix (walked r) (walked r0)"
  then show "prefix (schema r) (schema (r0\<lparr>ticks := ticks r0 + 1\<rparr>)) \<and>
         prefix (written r) (written (r0\<lparr>ticks := ticks r0 + 1\<rparr>)) \<and>
         state_writes (written (r0\<lparr>ticks := ticks r0 + 1\<rparr>)) = state_writes (written r) \<and>
         prefix (walked r) (walked (r0\<lparr>ticks := ticks r0 + 1\<rparr>))" by simp
next
  fix l0 r0 d r1 e
  assume I: "prefix (schema r) (schema r0) \<and> prefix (written r) (written r0) \<and>
         state_writes (written r0) = state_writes (written r) \<and> prefix (walked r) (walked r0)"
    and se: "sync_exchanges w cfg (next_date l0) (prev_schema l0) (exchanges cfg)
          (r0\<lparr>ticks := ticks r0 + 1, walked := walked r0 @ [next_date l0]\<rparr>) = (r1, Some e)"
  from sync_exchanges_frame [OF se] I
  show "prefix (schema r) (schema r1) \<and> prefix (written r) (written r1) \<and>
         state_writes (written r1) = state_writes (written r) \<and> prefix (walked r) (walked r1)"
    by (auto intro: prefix_order.trans)
next
  fix l0 r0 d r1
  assume I: "prefix (schema r) (schema r0) \<and> prefix (written r) (written r0) \<and>
         state_writes (written r0) = state_writes (written r) \<and> prefix (walked r) (walked r0)"
    and se: "sync_exchanges w cfg (next_date l0) (prev_schema l0) (exchanges cfg)
          (r0\<lparr>ticks := ticks r0 + 1, walked := walked r0 @ [next_date l0]\<rparr>) = (r1, None)"
  from sync_exchanges_frame [OF se] I
  show "prefix (schema r) (schema r1) \<and> prefix (written r) (written r1) \<and>
         state_writes (written r1) = state_writes (written r) \<and> prefix (walked r) (walked r1)"
    by (auto intro: prefix_order.trans)
qed

subsection \<open>Example runs\<close>

lemma strptime_0101: "strptime ''2024-01-01'' = Some d0101"
  by code_simp

lemma strptime_0102: "strptime ''2024-01-02'' = Some d0102"
  by code_simp

lemma strptime_0103: "strptime ''2024-01-03'' = Some d0103"
  by code_simp

lemma strftime_0101: "strftime d0101 = ''2024-01-01''"
  by code_simp

lemma strftime_0102: "strftime d0102 = ''2024-01-02''"
  by code_simp

lemma strftime_0103: "strftime d0103 = ''2024-01-03''"
  by code_simp

lemma strftime_iso_0101: "strftime_iso d0101 = ''2024-01-01T00:00:00Z''"
  by (simp add: strftime_iso_def strftime_0101)

lemma strftime_iso_0102: "strftime_iso d0102 = ''2024-01-02T00:00:00Z''"
  by (simp add: strftime_iso_def strftime_0102)

lemma add_day_0101: "add_day d0101 = Some d0102"
  by (simp add: add_day_def d0101_def d0102_def days_in_month_def)

lemma add_day_0102: "add_day d0102 = Some d0103"
  by (simp add: add_day_def d0102_def d0103_def days_in_month_def)



lemma jan2_clock:
  "datetime_le (midnight d0101) jan2" "datetime_le (midnight d0102) jan2"
  "\<not> datetime_le (midnight d0103) jan2"
  by (simp_all add: datetime_le_def midnight_def jan2_def date_less_def d0101_def d0102_def d0103_def)

lemma update_schema_eur_gbp:
  "update_schema [''EUR'', ''GBP''] initial_schema = eur_gbp_schema"
  "update_schema [''EUR'', ''GBP''] eur_gbp_schema = eur_gbp_schema"
  by (simp_all add: update_schema_def observe_def initial_schema_def eur_gbp_schema_def)

lemma schema_ne_same: "\<not> schema_ne eur_gbp_schema (Some eur_gbp_schema)"
  by (simp add: schema_ne_def dict_eq_def eur_gbp_schema_def)

lemma schema_ne_None: "schema_ne s None"
  by (simp add: schema_ne_def)

lemma ok_sync_exchange:
  assumes "strptime nd = Some t" and "\<not> schemaless cfg"
  shows "sync_exchange ok_world cfg nd prev ex r =
     (r\<lparr>calls := calls r + 1,
        schema := update_schema [''EUR'', ''GBP''] (schema r),
        written := written r @
           (if schema_ne (update_schema [''EUR'', ''GBP''] (schema r)) prev
            then [SCHEMA (update_schema [''EUR'', ''GBP''] (schema r))] else []) @
           [RECORD (Flat (flat_usd (strftime_iso t)))]\<rparr>,
      None)"
proof -
  let ?rq = "\<lparr>url_date = nd, param_base = ex_base ex, param_symbols = ex_symbols ex,
              header_apikey = apikey cfg\<rparr>"
  let ?resp = "\<lparr>status_code = 200, body_text = [], json_body = usd_payload nd\<rparr>"
  have "http_get ok_world (calls r) ?rq = Reply ?resp"
    by (simp add: ok_world_def reply_def)
  then have rq: "request ok_world ?rq r = (r\<lparr>calls := calls r + 1\<rparr>, Inr ?resp)"
    by (rule request_ok) simp
  show ?thesis
    using sync_exchange_flat [OF rq _ assms(2) assms(1), of prev]
    by (simp add: usd_payload_def flat_usd_def)
qed

lemma ok_run_loop:
  "date_loop ok_world cfg1 \<lparr>state = ''2024-01-01'', next_date = ''2024-01-01'', prev_schema = None\<rparr>
     initial_run =
   Some (\<lparr>state = ''2024-01-02'', next_date = ''2024-01-03'', prev_schema = Some eur_gbp_schema\<rparr>,
         \<lparr>written = [SCHEMA eur_gbp_schema,
                     RECORD (Flat (flat_usd ''2024-01-01T00:00:00Z'')),
                     RECORD (Flat (flat_usd ''2024-01-02T00:00:00Z''))],
          slept = [], calls = 2, ticks = 3, schema = eur_gbp_schema,
          walked = [''2024-01-01'', ''2024-01-02'']\<rparr>,
         None)"
proof -
  have ns: "\<not> schemaless cfg1" and ex: "exchanges cfg1 = [usd]" by (simp_all add: cfg1_def)
  have now: "utcnow ok_world k = jan2" for k by (simp add: ok_world_def)
  define l0 where "l0 = \<lparr>state = ''2024-01-01'', next_date = ''2024-01-01'', prev_schema = None\<rparr>"
  define r1 where "r1 = \<lparr>written = [SCHEMA eur_gbp_schema, RECORD (Flat (flat_usd ''2024-01-01T00:00:00Z''))],
          slept = [], calls = 1, ticks = 1, schema = eur_gbp_schema, walked = [''2024-01-01'']\<rparr>"
  define l1 where "l1 = \<lparr>state = ''2024-01-01'', next_date = ''2024-01-02'', prev_schema = Some eur_gbp_schema\<rparr>"
  define r2 where "r2 = \<lparr>written = [SCHEMA eur_gbp_schema, RECORD (Flat (flat_usd ''2024-01-01T00:00:00Z'')),
                     RECORD (Flat (flat_usd ''2024-01-02T00:00:00Z''))],
          slept = [], calls = 2, ticks = 2, schema = eur_gbp_schema,
          walked = [''2024-01-01'', ''2024-01-02'']\<rparr>"
  define l2 where "l2 = \<lparr>state = ''2024-01-02'', next_date = ''2024-01-03'', prev_schema = Some eur_gbp_schema\<rparr>"
  have e1: "sync_exchanges ok_world cfg1 (next_date l0) (prev_schema l0) (exchanges cfg1)
              (initial_run\<lparr>ticks := ticks initial_run + 1, walked := walked initial_run @ [next_date l0]\<rparr>)
            = (r1, None)"
    by (simp add: ex l0_def ok_sync_exchange [OF strptime_0101 ns] initial_run_def r1_def
          update_schema_eur_gbp schema_ne_None strftime_iso_0101)
  have e2: "sync_exchanges ok_world cfg1 (next_date l1) (prev_schema l1) (exchanges cfg1)
              (r1\<lparr>ticks := ticks r1 + 1, walked := walked r1 @ [next_date l1]\<rparr>)
            = (r2, None)"
    by (simp add: ex l1_def ok_sync_exchange [OF strptime_0102 ns] r1_def r2_def
          update_schema_eur_gbp schema_ne_same strftime_iso_0102)
  have "date_loop ok_world cfg1 l0 initial_run = date_loop ok_world cfg1 l1 r1"
    using date_loop_step [of l0 d0101 ok_world initial_run cfg1 r1 d0102] e1
    by (simp add: l0_def l1_def strptime_0101 now jan2_clock initial_run_def add_day_0101
          strftime_0102 r1_def)
  also have "\<dots> = date_loop ok_world cfg1 l2 r2"
    using date_loop_step [of l1 d0102 ok_world r1 cfg1 r2 d0103] e2
    by (simp add: l1_def l2_def strptime_0102 now jan2_clock add_day_0102 strftime_0103 r2_def)
  also have "\<dots> = Some (l2, r2\<lparr>ticks := ticks r2 + 1\<rparr>, None)"
    using date_loop_done [of l2 d0103 ok_world r2 cfg1]
    by (simp add: l2_def strptime_0103 now jan2_clock)
  finally show ?thesis by (simp add: l0_def l2_def r2_def)
qed


subsection \<open>Claim C8: the schema is append-only\<close>

text \<open>
  C8: over a run the schema only grows. Every iteration of the loop over exchanges leaves
  the schema it found as a prefix of the schema it leaves, and so does the whole walk over
  the dates: no property is removed, none changes its type, the number of properties never
  decreases.
\<close>

theorem schema_append_only:
  "prefix (schema r) (schema (fst (sync_exchange w cfg nd prev ex r))) \<and>
   (date_loop w cfg l r = Some (l', r', x) \<longrightarrow>
      prefix (schema r) (schema r') \<and> length (schema r) \<le> length (schema r') \<and>
      (\<forall>k v. map_of (schema r) k = Some v \<longrightarrow> map_of (schema r') k = Some v))"
proof -
  have a: "prefix (schema r) (schema (fst (sync_exchange w cfg nd prev ex r)))"
    using sync_exchange_frame [of w cfg nd prev ex r]
    by (cases "sync_exchange w cfg nd prev ex r") simp
  have b: "prefix (schema r) (schema r') \<and> length (schema r) \<le> length (schema r') \<and>
      (\<forall>k v. map_of (schema r) k = Some v \<longrightarrow> map_of (schema r') k = Some v)"
    if "date_loop w cfg l r = Some (l', r', x)"
    using date_loop_frame [OF that] by (auto intro: prefix_map_of prefix_length_le)
  from a b show ?thesis by blast
qed

theorem schema_append_only_witness:
  "date_loop ok_world cfg1
     \<lparr>state = ''2024-01-01'', next_date = ''2024-01-01'', prev_schema = None\<rparr> initial_run \<noteq> None \<and>
   schema initial_run = [(''date'', DateTimeString)] \<and>
   prefix [(''date'', DateTimeString)]
     [(''date'', DateTimeString), (''EUR'', NullableNumber), (''GBP'', NullableNumber)]"
  using schema_append_only
    [of initial_run ok_world cfg1 "''2024-01-01''" None usd
        "\<lparr>state = ''2024-01-01'', next_date = ''2024-01-01'', prev_schema = None\<rparr>"]
    ok_run_loop
  by (simp add: initial_run_def initial_schema_def eur_gbp_schema_def)

text \<open>The program starts from the schema that holds the \<^verbatim>\<open>date\<close> property only.\<close>

lemma main_schema_grows:
  assumes "main w a initial_run = Some (r', out)"
  shows "prefix [(''date'', DateTimeString)] (schema r')"
proof (cases "args_state a = []")
  case False
  with assms show ?thesis by (auto simp: main_def initial_run_def initial_schema_def)
next
  case True
  show ?thesis
  proof (cases "strptime_with_tz w (start_date (args_config a))")
    case None
    with True assms show ?thesis
      by (auto simp: main_def py_or_def initial_run_def initial_schema_def)
  next
    case (Some d)
    from main_without_state [OF True Some] assms
    have ds: "do_sync w (args_config a) (strftime d) initial_run = Some (r', out)" by simp
    then obtain l1 r1 x1 where
      dl: "date_loop w (args_config a)
             \<lparr>state = strftime d, next_date = strftime d, prev_schema = None\<rparr> initial_run
           = Some (l1, r1, x1)"
      by (auto simp: do_sync_def split: option.splits)
    from ds dl have "schema r' = schema r1"
      by (auto simp: do_sync_def split: option.splits if_splits)
    with date_loop_frame [OF dl] show ?thesis
      by (simp add: initial_run_def initial_schema_def)
  qed
qed

subsection \<open>Claim C5: a payload for another date\<close>

text \<open>
  C5 says that a payload whose \<open>date\<close> is not the date being walked yields no RECORD,
  raises nothing, and causes no schema change. The first two hold. The third does not:
  the codes of the payload are merged into the schema before the dates are compared, so a
  payload for another day that brings a new code changes the schema, and the changed schema
  is written.
\<close>

theorem mismatch_changes_schema_counterexample:
  "date stale_payload \<noteq> ''2024-01-01'' \<and>
   sync_exchange stale_world cfg1 ''2024-01-01'' (Some initial_schema) usd initial_run =
     (initial_run\<lparr>calls := 1,
        schema := [(''date'', DateTimeString), (''JPY'', NullableNumber)],
        written := [SCHEMA [(''date'', DateTimeString), (''JPY'', NullableNumber)]]\<rparr>,
      None) \<and>
   schema initial_run = [(''date'', DateTimeString)]"
proof -
  let ?rq = "\<lparr>url_date = ''2024-01-01'', param_base = ex_base usd, param_symbols = ex_symbols usd,
              header_apikey = apikey cfg1\<rparr>"
  let ?resp = "\<lparr>status_code = 200, body_text = [], json_body = stale_payload\<rparr>"
  have "http_get stale_world (calls initial_run) ?rq = Reply ?resp"
    by (simp add: stale_world_def reply_def)
  then have rq: "request stale_world ?rq initial_run = (initial_run\<lparr>calls := calls initial_run + 1\<rparr>, Inr ?resp)"
    by (rule request_ok) simp
  have ne: "date (json_body ?resp) \<noteq> ''2024-01-01''" by (simp add: stale_payload_def)
  have us: "update_schema [''JPY''] initial_schema = [(''date'', DateTimeString), (''JPY'', NullableNumber)]"
    by (simp add: update_schema_def observe_def initial_schema_def)
  have sn: "schema_ne [(''date'', DateTimeString), (''JPY'', NullableNumber)] (Some initial_schema)"
    by (simp add: schema_ne_def dict_eq_def initial_schema_def)
  show ?thesis
    using sync_exchange_mismatch [OF rq ne, of "Some initial_schema"] ne
    by (simp add: stale_payload_def initial_run_def us sn) (simp add: initial_schema_def)
qed

text \<open>
  C5 as the code has it, for every payload of another date: the exchange ends without an exception and
  without a RECORD, the schema is the old one extended by the payload's codes, and the only
  message written is the schema, when it differs from \<open>prev_schema\<close>.
\<close>

theorem mismatch_skips_record_but_merges_schema:
  assumes "request w \<lparr>url_date = nd, param_base = ex_base ex, param_symbols = ex_symbols ex,
              header_apikey = apikey cfg\<rparr> r = (r1, Inr resp)"
    and "date (json_body resp) \<noteq> nd"
  shows "\<exists>r'. sync_exchange w cfg nd prev ex r = (r', None) \<and>
           record_writes (written r') = record_writes (written r) \<and>
           state_writes (written r') = state_writes (written r) \<and>
           schema r' = update_schema (map fst (rates (json_body resp))) (schema r) \<and>
           written r' = written r @ (if schema_ne (schema r') prev then [SCHEMA (schema r')] else [])"
  using sync_exchange_mismatch [OF assms, of prev] request_frame [OF assms(1)]
  by simp

theorem mismatch_skips_record_but_merges_schema_witness:
  "request stale_world \<lparr>url_date = ''2024-01-01'', param_base = ex_base usd,
       param_symbols = ex_symbols usd, header_apikey = apikey cfg1\<rparr> initial_run =
     (initial_run\<lparr>calls := 1\<rparr>, Inr \<lparr>status_code = 200, body_text = [], json_body = stale_payload\<rparr>) \<and>
   date stale_payload \<noteq> ''2024-01-01'' \<and>
   (\<exists>r'. sync_exchange stale_world cfg1 ''2024-01-01'' None usd initial_run = (r', None) \<and>
      record_writes (written r') = [] \<and>
      schema r' = update_schema [''JPY''] initial_schema)"
proof -
  let ?rq = "\<lparr>url_date = ''2024-01-01'', param_base = ex_base usd, param_symbols = ex_symbols usd,
              header_apikey = apikey cfg1\<rparr>"
  let ?resp = "\<lparr>status_code = 200, body_text = [], json_body = stale_payload\<rparr>"
  have "http_get stale_world (calls initial_run) ?rq = Reply ?resp"
    by (simp add: stale_world_def reply_def)
  then have "request stale_world ?rq initial_run = (initial_run\<lparr>calls := calls initial_run + 1\<rparr>, Inr ?resp)"
    by (rule request_ok) simp
  then have rq: "request stale_world ?rq initial_run = (initial_run\<lparr>calls := 1\<rparr>, Inr ?resp)"
    by (simp add: initial_run_def)
  have ne: "date (json_body ?resp) \<noteq> ''2024-01-01''" by (simp add: stale_payload_def)
  from mismatch_skips_record_but_merges_schema [OF rq ne, of None]
  obtain r' where "sync_exchange stale_world cfg1 ''2024-01-01'' None usd initial_run = (r', None)"
    and "record_writes (written r') = record_writes (written initial_run)"
    and "schema r' = update_schema (map fst (rates (json_body ?resp))) (schema initial_run)"
    by blast
  then have "\<exists>r'. sync_exchange stale_world cfg1 ''2024-01-01'' None usd initial_run = (r', None) \<and>
      record_writes (written r') = [] \<and>
      schema r' = update_schema [''JPY''] initial_schema"
    by (simp add: initial_run_def stale_payload_def)
  with rq ne show ?thesis by simp
qed

text \<open>The walk goes on after such a payload: the next exchange is processed.\<close>

lemma sync_exchanges_after_mismatch:
  assumes "request w \<lparr>url_date = nd, param_base = ex_base ex, param_symbols = ex_symbols ex,
              header_apikey = apikey cfg\<rparr> r = (r1, Inr resp)"
    and "date (json_body resp) \<noteq> nd"
  shows "sync_exchanges w cfg nd prev (ex # exs) r =
           sync_exchanges w cfg nd prev exs (fst (sync_exchange w cfg nd prev ex r))"
  using sync_exchange_mismatch [OF assms, of prev] by simp

subsection \<open>Claim C4: when the schema is written\<close>

lemma usd_sync_exchange:
  assumes hg: "\<And>k rq. http_get w k rq = reply 200 (usd_payload (url_date rq))"
    and "strptime nd = Some t" and "\<not> schemaless cfg"
  shows "sync_exchange w cfg nd prev ex r =
     (r\<lparr>calls := calls r + 1,
        schema := update_schema [''EUR'', ''GBP''] (schema r),
        written := written r @
           (if schema_ne (update_schema [''EUR'', ''GBP''] (schema r)) prev
            then [SCHEMA (update_schema [''EUR'', ''GBP''] (schema r))] else []) @
           [RECORD (Flat (flat_usd (strftime_iso t)))]\<rparr>,
      None)"
proof -
  let ?rq = "\<lparr>url_date = nd, param_base = ex_base ex, param_symbols = ex_symbols ex,
              header_apikey = apikey cfg\<rparr>"
  let ?resp = "\<lparr>status_code = 200, body_text = [], json_body = usd_payload nd\<rparr>"
  have "http_get w (calls r) ?rq = Reply ?resp"
    by (simp add: hg reply_def)
  then have rq: "request w ?rq r = (r\<lparr>calls := calls r + 1\<rparr>, Inr ?resp)"
    by (rule request_ok) simp
  show ?thesis
    using sync_exchange_flat [OF rq _ assms(3) assms(2), of prev]
    by (simp add: usd_payload_def flat_usd_def)
qed

lemma jan1_clock:
  "datetime_le (midnight d0101) jan1" "\<not> datetime_le (midnight d0102) jan1"
  by (simp_all add: datetime_le_def midnight_def jan1_def date_less_def d0101_def d0102_def)

text \<open>
  C4 says that the schema is written on the first date/exchange iteration and on the
  iterations that bring a new currency code, and on no other. The code compares the schema
  with \<open>prev_schema\<close>, which is not the schema last written: it is \<^verbatim>\<open>{}\<close> during the whole
  first date, and the copy taken at the end of the previous date afterwards. With two
  exchanges and one date, the second exchange brings no new code, and the schema is
  written again, unchanged.
\<close>

theorem schema_written_again_unchanged:
  "do_sync jan1_world cfg2 ''2024-01-01'' initial_run =
   Some (\<lparr>written = [SCHEMA eur_gbp_schema,
                     RECORD (Flat (flat_usd ''2024-01-01T00:00:00Z'')),
                     SCHEMA eur_gbp_schema,
                     RECORD (Flat (flat_usd ''2024-01-01T00:00:00Z'')),
                     STATE ''2024-01-01''],
          slept = [], calls = 2, ticks = 2, schema = eur_gbp_schema,
          walked = [''2024-01-01'']\<rparr>,
         Returned)"
proof -
  have ns: "\<not> schemaless cfg2" and ex: "exchanges cfg2 = [usd, eur]"
    by (simp_all add: cfg2_def cfg1_def)
  have now: "utcnow jan1_world k = jan1" for k by (simp add: jan1_world_def)
  have hg: "http_get jan1_world k rq = reply 200 (usd_payload (url_date rq))" for k rq
    by (simp add: jan1_world_def ok_world_def)
  define l0 where "l0 = \<lparr>state = ''2024-01-01'', next_date = ''2024-01-01'', prev_schema = None\<rparr>"
  define r1 where "r1 = \<lparr>written = [SCHEMA eur_gbp_schema, RECORD (Flat (flat_usd ''2024-01-01T00:00:00Z'')),
                               SCHEMA eur_gbp_schema, RECORD (Flat (flat_usd ''2024-01-01T00:00:00Z''))],
          slept = [], calls = 2, ticks = 1, schema = eur_gbp_schema, walked = [''2024-01-01'']\<rparr>"
  define l1 where "l1 = \<lparr>state = ''2024-01-01'', next_date = ''2024-01-02'', prev_schema = Some eur_gbp_schema\<rparr>"
  have e1: "sync_exchanges jan1_world cfg2 (next_date l0) (prev_schema l0) (exchanges cfg2)
              (initial_run\<lparr>ticks := ticks initial_run + 1, walked := walked initial_run @ [next_date l0]\<rparr>)
            = (r1, None)"
    by (simp add: ex l0_def usd_sync_exchange [OF hg strptime_0101 ns] initial_run_def r1_def
          update_schema_eur_gbp schema_ne_None strftime_iso_0101)
  have "date_loop jan1_world cfg2 l0 initial_run = date_loop jan1_world cfg2 l1 r1"
    using date_loop_step [of l0 d0101 jan1_world initial_run cfg2 r1 d0102] e1
    by (simp add: l0_def l1_def strptime_0101 now jan1_clock initial_run_def add_day_0101
          strftime_0102 r1_def)
  also have "\<dots> = Some (l1, r1\<lparr>ticks := ticks r1 + 1\<rparr>, None)"
    using date_loop_done [of l1 d0102 jan1_world r1 cfg2]
    by (simp add: l1_def strptime_0102 now jan1_clock)
  finally show ?thesis by (simp add: do_sync_def l0_def l1_def r1_def)
qed

subsection \<open>The loop over dates always ends\<close>




subsection \<open>Claims C2 and C3: the checkpoint\<close>

lemma date_loop_checkpoint:
  assumes run: "date_loop w cfg \<lparr>state = start, next_date = start, prev_schema = p\<rparr> r = Some (l', r', x)"
  shows "(x = None \<longrightarrow> (\<exists>completed. walked r' = walked r @ completed \<and>
                          state l' = last (start # completed))) \<and>
         (\<forall>e. x = Some e \<and> is_RequestException e \<longrightarrow>
            (\<exists>completed. walked r' = walked r @ completed @ [next_date l'] \<and>
               state l' = last (start # completed) \<and> follows start completed (next_date l')))"
proof (rule date_loop_rule [OF run,
    where I = "\<lambda>l0 r0. \<exists>completed. walked r0 = walked r @ completed \<and>
                 state l0 = last (start # completed) \<and> follows start completed (next_date l0)"
      and Q = "\<lambda>l' r' x. (x = None \<longrightarrow> (\<exists>completed. walked r' = walked r @ completed \<and>
                          state l' = last (start # completed))) \<and>
         (\<forall>e. x = Some e \<and> is_RequestException e \<longrightarrow>
            (\<exists>completed. walked r' = walked r @ completed @ [next_date l'] \<and>
               state l' = last (start # completed) \<and> follows start completed (next_date l')))"])
  show "\<exists>completed. walked r = walked r @ completed \<and>
          state \<lparr>state = start, next_date = start, prev_schema = p\<rparr> = last (start # completed) \<and>
          follows start completed (next_date \<lparr>state = start, next_date = start, prev_schema = p\<rparr>)"
    by (rule exI [of _ "[]"]) (simp add: follows_def)
next
  fix l0 r0 d r1 d'
  assume I: "\<exists>completed. walked r0 = walked r @ completed \<and>
                 state l0 = last (start # completed) \<and> follows start completed (next_date l0)"
    and sp: "strptime (next_date l0) = Some d"
    and se: "sync_exchanges w cfg (next_date l0) (prev_schema l0) (exchanges cfg)
          (r0\<lparr>ticks := ticks r0 + 1, walked := walked r0 @ [next_date l0]\<rparr>) = (r1, None)"
    and ad: "add_day d = Some d'"
  from I obtain completed where c: "walked r0 = walked r @ completed" by blast
  from sync_exchanges_frame [OF se] have w1: "walked r1 = walked r0 @ [next_date l0]" by simp
  let ?l = "\<lparr>state = next_date l0, next_date = strftime d', prev_schema = Some (schema r1)\<rparr>"
  have "walked r1 = walked r @ (completed @ [next_date l0]) \<and>
        state ?l = last (start # (completed @ [next_date l0])) \<and>
        follows start (completed @ [next_date l0]) (next_date ?l)"
    using c w1 sp ad by (simp add: follows_def)
  then show "\<exists>completed. walked r1 = walked r @ completed \<and>
        state ?l = last (start # completed) \<and> follows start completed (next_date ?l)"
    by (rule exI)
next
  fix l0 r0
  show "(Some ValueError = None \<longrightarrow> (\<exists>completed. walked r0 = walked r @ completed \<and>
                          state l0 = last (start # completed))) \<and>
         (\<forall>e. Some ValueError = Some e \<and> is_RequestException e \<longrightarrow>
            (\<exists>completed. walked r0 = walked r @ completed @ [next_date l0] \<and>
               state l0 = last (start # completed) \<and> follows start completed (next_date l0)))"
    by simp
next
  fix l0 r0 d
  assume "\<exists>completed. walked r0 = walked r @ completed \<and>
                 state l0 = last (start # completed) \<and> follows start completed (next_date l0)"
  then have "\<exists>completed. walked r0 = walked r @ completed \<and> state l0 = last (start # completed)"
    by blast
  then show "(None = None \<longrightarrow> (\<exists>completed. walked (r0\<lparr>ticks := ticks r0 + 1\<rparr>) = walked r @ completed \<and>
                          state l0 = last (start # completed))) \<and>
         (\<forall>e. None = Some e \<and> is_RequestException e \<longrightarrow>
            (\<exists>completed. walked (r0\<lparr>ticks := ticks r0 + 1\<rparr>) = walked r @ completed @ [next_date l0] \<and>
               state l0 = last (start # completed) \<and> follows start completed (next_date l0)))"
    by simp
next
  fix l0 r0 d r1 e
  assume I: "\<exists>completed. walked r0 = walked r @ completed \<and>
                 state l0 = last (start # completed) \<and> follows start completed (next_date l0)"
    and se: "sync_exchanges w cfg (next_date l0) (prev_schema l0) (exchanges cfg)
          (r0\<lparr>ticks := ticks r0 + 1, walked := walked r0 @ [next_date l0]\<rparr>) = (r1, Some e)"
  from sync_exchanges_frame [OF se] have w1: "walked r1 = walked r0 @ [next_date l0]" by simp
  from I obtain completed where c: "walked r0 = walked r @ completed"
    "state l0 = last (start # completed)" "follows start completed (next_date l0)" by blast
  have "walked r1 = walked r @ completed @ [next_date l0] \<and>
               state l0 = last (start # completed) \<and> follows start completed (next_date l0)"
    using c w1 by simp
  then have "\<exists>completed. walked r1 = walked r @ completed @ [next_date l0] \<and>
               state l0 = last (start # completed) \<and> follows start completed (next_date l0)"
    by (rule exI)
  then show "(Some e = None \<longrightarrow> (\<exists>completed. walked r1 = walked r @ completed \<and>
                          state l0 = last (start # completed))) \<and>
         (\<forall>e'. Some e = Some e' \<and> is_RequestException e' \<longrightarrow>
            (\<exists>completed. walked r1 = walked r @ completed @ [next_date l0] \<and>
               state l0 = last (start # completed) \<and> follows start completed (next_date l0)))"
    by simp
next
  fix l0 r0 d r1
  show "(Some OverflowError = None \<longrightarrow> (\<exists>completed. walked r1 = walked r @ completed \<and>
                          state (l0\<lparr>state := next_date l0\<rparr>) = last (start # completed))) \<and>
         (\<forall>e. Some OverflowError = Some e \<and> is_RequestException e \<longrightarrow>
            (\<exists>completed. walked r1 = walked r @ completed @ [next_date (l0\<lparr>state := next_date l0\<rparr>)] \<and>
               state (l0\<lparr>state := next_date l0\<rparr>) = last (start # completed) \<and>
               follows start completed (next_date (l0\<lparr>state := next_date l0\<rparr>))))"
    by simp
qed

text \<open>Two runs that end on the fatal path: on the first date, and on the second.\<close>

lemma forbidden_run:
  "do_sync forbidden_world cfg1 ''2024-01-01'' initial_run = Some (forbidden_final, Exit (- 1))"
proof -
  have ex: "exchanges cfg1 = [usd]" by (simp add: cfg1_def)
  have now: "utcnow forbidden_world k = jan2" for k by (simp add: forbidden_world_def ok_world_def)
  define l0 where "l0 = \<lparr>state = ''2024-01-01'', next_date = ''2024-01-01'', prev_schema = None\<rparr>"
  define r0 where "r0 = initial_run\<lparr>ticks := ticks initial_run + 1,
                                   walked := walked initial_run @ [next_date l0]\<rparr>"
  let ?rq = "\<lparr>url_date = ''2024-01-01'', param_base = ex_base usd, param_symbols = ex_symbols usd,
              header_apikey = apikey cfg1\<rparr>"
  let ?resp = "\<lparr>status_code = 403, body_text = [], json_body = usd_payload ''2024-01-01''\<rparr>"
  have "http_get forbidden_world (calls r0) ?rq = Reply ?resp"
    by (simp add: forbidden_world_def reply_def)
  then have rq: "request forbidden_world ?rq r0 = (r0\<lparr>calls := calls r0 + 1\<rparr>, Inl (HTTPError ?resp))"
    by (rule request_gives_up_at_once) simp_all
  have e1: "sync_exchanges forbidden_world cfg1 (next_date l0) (prev_schema l0) (exchanges cfg1) r0
            = (r0\<lparr>calls := calls r0 + 1\<rparr>, Some (HTTPError ?resp))"
    using sync_exchange_failed [OF rq, of None] by (simp add: ex l0_def)
  have "date_loop forbidden_world cfg1 l0 initial_run
          = Some (l0, r0\<lparr>calls := calls r0 + 1\<rparr>, Some (HTTPError ?resp))"
    using date_loop_fail [of l0 d0101 forbidden_world initial_run cfg1 "r0\<lparr>calls := calls r0 + 1\<rparr>"
        "HTTPError ?resp"] e1
    by (simp add: l0_def r0_def strptime_0101 now jan2_clock)
  then show ?thesis
    by (simp add: do_sync_def l0_def r0_def initial_run_def forbidden_final_def)
qed

lemma late_forbidden_run:
  "do_sync late_forbidden_world cfg1 ''2024-01-01'' initial_run =
     Some (late_forbidden_final, Exit (- 1))"
proof -
  have ns: "\<not> schemaless cfg1" and ex: "exchanges cfg1 = [usd]" by (simp_all add: cfg1_def)
  have now: "utcnow late_forbidden_world k = jan2" for k
    by (simp add: late_forbidden_world_def ok_world_def)
  define l0 where "l0 = \<lparr>state = ''2024-01-01'', next_date = ''2024-01-01'', prev_schema = None\<rparr>"
  define r0 where "r0 = initial_run\<lparr>ticks := ticks initial_run + 1,
                                   walked := walked initial_run @ [next_date l0]\<rparr>"
  define r1 where "r1 = \<lparr>written = [SCHEMA eur_gbp_schema, RECORD (Flat (flat_usd ''2024-01-01T00:00:00Z''))],
          slept = [], calls = 1, ticks = 1, schema = eur_gbp_schema, walked = [''2024-01-01'']\<rparr>"
  define l1 where "l1 = \<lparr>state = ''2024-01-01'', next_date = ''2024-01-02'', prev_schema = Some eur_gbp_schema\<rparr>"
  define r1' where "r1' = r1\<lparr>ticks := ticks r1 + 1, walked := walked r1 @ [next_date l1]\<rparr>"
  let ?rq1 = "\<lparr>url_date = ''2024-01-01'', param_base = ex_base usd, param_symbols = ex_symbols usd,
              header_apikey = apikey cfg1\<rparr>"
  let ?ok = "\<lparr>status_code = 200, body_text = [], json_body = usd_payload ''2024-01-01''\<rparr>"
  have "http_get late_forbidden_world (calls r0) ?rq1 = Reply ?ok"
    by (simp add: late_forbidden_world_def reply_def r0_def initial_run_def)
  then have rq1: "request late_forbidden_world ?rq1 r0 = (r0\<lparr>calls := calls r0 + 1\<rparr>, Inr ?ok)"
    by (rule request_ok) simp
  have e1: "sync_exchanges late_forbidden_world cfg1 (next_date l0) (prev_schema l0) (exchanges cfg1) r0
            = (r1, None)"
    using sync_exchange_flat [OF rq1 _ ns strptime_0101, of None]
    by (simp add: ex l0_def r0_def r1_def initial_run_def usd_payload_def flat_usd_def
          update_schema_eur_gbp schema_ne_None strftime_iso_0101)
  let ?rq2 = "\<lparr>url_date = ''2024-01-02'', param_base = ex_base usd, param_symbols = ex_symbols usd,
              header_apikey = apikey cfg1\<rparr>"
  let ?no = "\<lparr>status_code = 403, body_text = [], json_body = usd_payload ''2024-01-02''\<rparr>"
  have "http_get late_forbidden_world (calls r1') ?rq2 = Reply ?no"
    by (simp add: late_forbidden_world_def reply_def r1'_def r1_def)
  then have rq2: "request late_forbidden_world ?rq2 r1' = (r1'\<lparr>calls := calls r1' + 1\<rparr>, Inl (HTTPError ?no))"
    by (rule request_gives_up_at_once) simp_all
  have e2: "sync_exchanges late_forbidden_world cfg1 (next_date l1) (prev_schema l1) (exchanges cfg1) r1'
            = (r1'\<lparr>calls := calls r1' + 1\<rparr>, Some (HTTPError ?no))"
    using sync_exchange_failed [OF rq2, of "Some eur_gbp_schema"] by (simp add: ex l1_def)
  have "date_loop late_forbidden_world cfg1 l0 initial_run = date_loop late_forbidden_world cfg1 l1 r1"
    using date_loop_step [of l0 d0101 late_forbidden_world initial_run cfg1 r1 d0102] e1
    by (simp add: l0_def l1_def r0_def strptime_0101 now jan2_clock add_day_0101
          strftime_0102 r1_def)
  also have "\<dots> = Some (l1, r1'\<lparr>calls := calls r1' + 1\<rparr>, Some (HTTPError ?no))"
    using date_loop_fail [of l1 d0102 late_forbidden_world r1 cfg1 "r1'\<lparr>calls := calls r1' + 1\<rparr>"
        "HTTPError ?no"] e2
    by (simp add: l1_def r1'_def strptime_0102 now jan2_clock)
  finally show ?thesis
    by (simp add: do_sync_def l0_def l1_def r1'_def r1_def late_forbidden_final_def)
qed

lemma do_sync_cases:
  assumes "do_sync w cfg start r = Some (r', out)"
  obtains (returned) l1 r1 where
      "date_loop w cfg \<lparr>state = start, next_date = start, prev_schema = None\<rparr> r = Some (l1, r1, None)"
      "r' = r1\<lparr>written := written r1 @ [STATE (state l1)]\<rparr>" "out = Returned"
  | (fatal) l1 r1 e resp where
      "date_loop w cfg \<lparr>state = start, next_date = start, prev_schema = None\<rparr> r = Some (l1, r1, Some e)"
      "is_RequestException e" "exn_response e = Some resp"
      "r' = r1\<lparr>written := written r1 @ [STATE (state l1)]\<rparr>" "out = Exit (- 1)"
  | (crash) l1 r1 e e' where
      "date_loop w cfg \<lparr>state = start, next_date = start, prev_schema = None\<rparr> r = Some (l1, r1, Some e)"
      "r' = r1" "out = Raised e'"
  using assms
  by (auto simp: do_sync_def split: option.splits if_splits)




text \<open>
  C3 says that after a fatal HTTP error on date \<open>D\<close> the state written is the last
  date before \<open>D\<close> that completed, never \<open>D\<close>. When the error strikes on the first
  date of the run nothing has completed, and the state written is the start date: \<open>D\<close>
  itself.
\<close>

theorem fatal_on_first_date_counterexample:
  "do_sync forbidden_world cfg1 ''2024-01-01'' initial_run = Some (forbidden_final, Exit (- 1)) \<and>
   walked forbidden_final = [''2024-01-01''] \<and>
   written forbidden_final = [STATE ''2024-01-01'']"
  using forbidden_run by (simp add: forbidden_final_def)

text \<open>
  C3 as the code has it: when the run exits on an HTTP error, the dates walked are the completed
  ones followed by the failing date \<open>D\<close>; the last message is the STATE of the last
  completed date, and \<open>D\<close> is the day after it; with no completed date, \<open>D\<close> is the
  start date and so is the state.
\<close>

theorem fatal_error_checkpoint:
  assumes "do_sync w cfg start r = Some (r', Exit (- 1))"
  shows "\<exists>completed D ms. walked r' = walked r @ completed @ [D] \<and>
           written r' = ms @ [STATE (last (start # completed))] \<and>
           state_writes ms = state_writes (written r) \<and>
           follows start completed D"
  using assms
proof (cases rule: do_sync_cases)
  case (fatal l1 r1 e resp)
  from date_loop_checkpoint [OF fatal(1)] fatal(2)
  obtain completed where c: "walked r1 = walked r @ completed @ [next_date l1]"
    "state l1 = last (start # completed)" "follows start completed (next_date l1)"
    by blast
  from date_loop_frame [OF fatal(1)] have "state_writes (written r1) = state_writes (written r)"
    by simp
  with c fatal(4) have "walked r' = walked r @ completed @ [next_date l1] \<and>
           written r' = written r1 @ [STATE (last (start # completed))] \<and>
           state_writes (written r1) = state_writes (written r) \<and>
           follows start completed (next_date l1)"
    by simp
  then show ?thesis by blast
qed simp_all

theorem fatal_error_checkpoint_witness:
  "do_sync late_forbidden_world cfg1 ''2024-01-01'' initial_run =
     Some (late_forbidden_final, Exit (- 1)) \<and>
   walked late_forbidden_final = walked initial_run @ [''2024-01-01''] @ [''2024-01-02''] \<and>
   written late_forbidden_final =
     [SCHEMA eur_gbp_schema, RECORD (Flat (flat_usd ''2024-01-01T00:00:00Z''))] @
     [STATE (last [''2024-01-01'', ''2024-01-01''])] \<and>
   follows ''2024-01-01'' [''2024-01-01''] ''2024-01-02'' \<and>
   (\<exists>completed D ms. walked late_forbidden_final = walked initial_run @ completed @ [D] \<and>
           written late_forbidden_final = ms @ [STATE (last (''2024-01-01'' # completed))] \<and>
           state_writes ms = state_writes (written initial_run) \<and>
           follows ''2024-01-01'' completed D)"
  using fatal_error_checkpoint [OF late_forbidden_run] late_forbidden_run
  by (simp add: late_forbidden_final_def initial_run_def follows_def strptime_0101 add_day_0101
        strftime_0102)

subsection \<open>The order of dates\<close>





lemma date_le_trans: "date_le a b \<Longrightarrow> date_le b c \<Longrightarrow> date_le a c"
  by (auto simp: date_le_def date_less_def)






subsection \<open>Claim C7: the dates walked\<close>








text \<open>
  The whole run when the network is down: the \<^verbatim>\<open>AttributeError\<close> raised in \<^verbatim>\<open>giveup\<close> is
  not a \<^verbatim>\<open>RequestException\<close>, so \<^verbatim>\<open>do_sync\<close> does not catch it and no STATE is written.
\<close>

lemma network_down_run:
  "do_sync down_world cfg1 ''2024-01-01'' initial_run =
     Some (initial_run\<lparr>calls := 1, ticks := 1, walked := [''2024-01-01'']\<rparr>, Raised AttributeError)"
proof -
  have ex: "exchanges cfg1 = [usd]" by (simp add: cfg1_def)
  have now: "utcnow down_world k = jan2" for k by (simp add: down_world_def ok_world_def)
  define l0 where "l0 = \<lparr>state = ''2024-01-01'', next_date = ''2024-01-01'', prev_schema = None\<rparr>"
  define r0 where "r0 = initial_run\<lparr>ticks := ticks initial_run + 1,
                                   walked := walked initial_run @ [next_date l0]\<rparr>"
  let ?rq = "\<lparr>url_date = ''2024-01-01'', param_base = ex_base usd, param_symbols = ex_symbols usd,
              header_apikey = apikey cfg1\<rparr>"
  have "http_get down_world (calls r0) ?rq = Transport_Failure"
    by (simp add: down_world_def)
  then have "get_once down_world (calls r0) ?rq = Inl ConnectionError"
    by (rule get_once_failure)
  then have rq: "request down_world ?rq r0 = (r0\<lparr>calls := calls r0 + 1\<rparr>, Inl AttributeError)"
    unfolding request_def by (rule on_exception_crash)
  have e1: "sync_exchanges down_world cfg1 (next_date l0) (prev_schema l0) (exchanges cfg1) r0
            = (r0\<lparr>calls := calls r0 + 1\<rparr>, Some AttributeError)"
    using sync_exchange_failed [OF rq, of None] by (simp add: ex l0_def)
  have "date_loop down_world cfg1 l0 initial_run
          = Some (l0, r0\<lparr>calls := calls r0 + 1\<rparr>, Some AttributeError)"
    using date_loop_fail [of l0 d0101 down_world initial_run cfg1 "r0\<lparr>calls := calls r0 + 1\<rparr>"
        AttributeError] e1
    by (simp add: l0_def r0_def strptime_0101 now jan2_clock)
  then show ?thesis
    by (simp add: do_sync_def l0_def r0_def initial_run_def)
qed

end
